theory Spec2Isabelle
  imports Complex_Main
begin

section \<open>OpenCut: the timeline widget and the playback clock of \<^verbatim>\<open>main.py\<close>\<close>

text \<open>
  The program is a PyQt6 video trimmer. Its logic lives in two classes:
  \<^verbatim>\<open>TimelineWidget\<close> (time/pixel mapping, marker and playhead dragging, zoom, ticks) and
  \<^verbatim>\<open>VideoEditorWindow\<close> (playback clock, seeking, range changes, export).

  Conventions of the embedding:
  \<^item> Python \<^verbatim>\<open>float\<close> values are modelled as \<^typ>\<open>real\<close>: rounding of IEEE doubles is not
    modelled, comparisons, \<^verbatim>\<open>min\<close> and \<^verbatim>\<open>max\<close> are exact in both.
  \<^item> Python \<^verbatim>\<open>int\<close> values (widget width, paddings, slider values, wheel deltas) are
    \<^typ>\<open>int\<close>.
  \<^item> \<^verbatim>\<open>time.time()\<close> is an input: every function that reads the clock takes the value
    read as an argument.
  \<^item> A Qt signal is a value returned next to the new widget state; the window's handler
    is run on it afterwards, which is what a direct signal connection does, since nothing
    but \<^verbatim>\<open>self.update()\<close> follows an \<^verbatim>\<open>emit\<close> in the source.
  \<^item> Calls that leave the program (message boxes, file dialogs, the media library) are
    recorded in a trace of effects, in call order.
  \<^item> Repainting (\<^verbatim>\<open>update()\<close>), pixmaps and the texts of the time and marker labels are
    not state of the model; of the widgets' texts only the status line is kept, as a
    datatype of its messages.
  \<^item> \<^verbatim>\<open>cut_in_place\<close> (connected to no control), \<^verbatim>\<open>frame_to_qpixmap\<close> and the file dialogs'
    own logic are left out.
\<close>

subsection \<open>Time labels: \<^verbatim>\<open>sec_to_hms\<close>\<close>

text \<open>Python's \<^verbatim>\<open>str\<close> of a non-negative integer.\<close>

definition digit_char :: "nat \<Rightarrow> char" where
  "digit_char d = ''0123456789'' ! d"

fun str_nat :: "nat \<Rightarrow> string" where
  "str_nat n = (if n < 10 then [digit_char n] else str_nat (n div 10) @ [digit_char (n mod 10)])"

declare str_nat.simps [simp del]

text \<open>
  The format specifications \<^verbatim>\<open>{n}\<close> and \<^verbatim>\<open>{n:02d}\<close> of an f-string, on an integer: a minus
  sign for a negative value, and for \<^verbatim>\<open>02d\<close> zero padding up to width two (the sign
  counts towards the width, so a negative value is never padded).
\<close>

definition fmt_d :: "int \<Rightarrow> string" where
  "fmt_d n = (if n < 0 then CHR ''-'' # str_nat (nat (- n)) else str_nat (nat n))"

definition fmt_02d :: "int \<Rightarrow> string" where
  "fmt_02d n = (let s = fmt_d n in
     if length s \<ge> 2 then s else replicate (2 - length s) CHR ''0'' @ s)"

text \<open>Python's float floor division \<^verbatim>\<open>a // b\<close> and modulo \<^verbatim>\<open>a % b\<close> for \<open>b > 0\<close>.\<close>

definition fdiv :: "real \<Rightarrow> real \<Rightarrow> real" where
  "fdiv a b = of_int \<lfloor>a / b\<rfloor>"

definition fmod :: "real \<Rightarrow> real \<Rightarrow> real" where
  "fmod a b = a - b * of_int \<lfloor>a / b\<rfloor>"

text \<open>
  \<^verbatim>\<open>int(v)\<close> on a float truncates towards zero.
\<close>

definition py_int :: "real \<Rightarrow> int" where
  "py_int v = (if v \<ge> 0 then \<lfloor>v\<rfloor> else \<lceil>v\<rceil>)"

text \<open>The argument is \<^verbatim>\<open>None\<close> or a number.\<close>

definition sec_to_hms :: "real option \<Rightarrow> string" where
  "sec_to_hms a =
     (case a of
        None \<Rightarrow> ''0:00''
      | Some t0 \<Rightarrow>
          (let t = max 0 t0;
               hrs = py_int (fdiv t 3600);
               mins = py_int (fdiv (fmod t 3600) 60);
               secs = py_int (fmod t 60)
           in if hrs > 0 then fmt_d hrs @ '':'' @ fmt_02d mins @ '':'' @ fmt_02d secs
              else fmt_d mins @ '':'' @ fmt_02d secs))"

subsection \<open>The timeline widget\<close>

datatype drag = DragStart | DragEnd | DragPlayhead

text \<open>
  The attributes of \<^verbatim>\<open>TimelineWidget\<close> that its logic reads or writes. \<open>width\<close> is the
  value of Qt's \<^verbatim>\<open>self.width()\<close>. \<open>dragging\<close> is \<^verbatim>\<open>None\<close>, \<^verbatim>\<open>"start"\<close>, \<^verbatim>\<open>"end"\<close> or
  \<^verbatim>\<open>"playhead"\<close>.
\<close>

record timeline_widget =
  width :: int
  clip_duration :: real
  playhead :: real
  start_marker :: real
  end_marker :: real
  left_padding :: int
  right_padding :: int
  dragging :: "drag option"
  drag_offset :: real
  pixels_per_second :: real
  min_pps :: real
  max_pps :: real

datatype signal = RangeChanged real real | SeekRequested real

text \<open>The state \<^verbatim>\<open>__init__\<close> leaves, in a widget of width \<open>w\<close>.\<close>

definition init_timeline :: "int \<Rightarrow> timeline_widget" where
  "init_timeline w =
     \<lparr>width = w, clip_duration = 0, playhead = 0, start_marker = 0, end_marker = 0,
      left_padding = 50, right_padding = 50, dragging = None, drag_offset = 0,
      pixels_per_second = 120, min_pps = 40, max_pps = 1000\<rparr>"

definition set_clip_duration :: "timeline_widget \<Rightarrow> real \<Rightarrow> timeline_widget" where
  "set_clip_duration tw d =
     tw\<lparr>clip_duration := max 0 d, start_marker := 0, end_marker := max 0 d, playhead := 0\<rparr>"

text \<open>The locals \<^verbatim>\<open>usable\<close>, \<^verbatim>\<open>total_width\<close> and \<^verbatim>\<open>scale\<close> shared by both mapping functions.\<close>

definition usable :: "timeline_widget \<Rightarrow> int" where
  "usable tw = max 10 (width tw - (left_padding tw + right_padding tw))"

definition total_width :: "timeline_widget \<Rightarrow> real" where
  "total_width tw = pixels_per_second tw * max 1 (clip_duration tw)"

definition scale :: "timeline_widget \<Rightarrow> real" where
  "scale tw = of_int (usable tw) / (if clip_duration tw > 0 then clip_duration tw else 1)"

definition seconds_to_x :: "timeline_widget \<Rightarrow> real \<Rightarrow> real" where
  "seconds_to_x tw seconds =
     (if total_width tw \<le> of_int (usable tw) then
        (let start_x = of_int (left_padding tw) + (of_int (usable tw) - total_width tw) / 2
         in start_x + seconds * pixels_per_second tw)
      else
        (let start_x = of_int (left_padding tw)
         in start_x + seconds * scale tw))"

definition x_to_seconds :: "timeline_widget \<Rightarrow> real \<Rightarrow> real" where
  "x_to_seconds tw x =
     (if total_width tw \<le> of_int (usable tw) then
        (let start_x = of_int (left_padding tw) + (of_int (usable tw) - total_width tw) / 2
         in max 0 (min (clip_duration tw) ((x - start_x) / max (1 / 1000000) (pixels_per_second tw))))
      else
        (let start_x = of_int (left_padding tw)
         in max 0 (min (clip_duration tw) ((x - start_x) / max (1 / 1000000) (scale tw)))))"

subsection \<open>Pointer events and the wheel\<close>

text \<open>
  Each handler returns the new widget state and the signals it emitted, in order.
  \<^verbatim>\<open>hit_radius\<close> is the local constant of \<^verbatim>\<open>mousePressEvent\<close>.
\<close>

definition hit_radius :: real where
  "hit_radius = 10"

definition mousePressEvent :: "timeline_widget \<Rightarrow> real \<Rightarrow> timeline_widget \<times> signal list" where
  "mousePressEvent tw x =
     (let start_x = seconds_to_x tw (start_marker tw);
          end_x = seconds_to_x tw (end_marker tw)
      in if \<bar>x - start_x\<bar> \<le> hit_radius then
           (tw\<lparr>dragging := Some DragStart, drag_offset := x - start_x\<rparr>, [])
         else if \<bar>x - end_x\<bar> \<le> hit_radius then
           (tw\<lparr>dragging := Some DragEnd, drag_offset := x - end_x\<rparr>, [])
         else
           (let ph_x = seconds_to_x tw (playhead tw)
            in if \<bar>x - ph_x\<bar> \<le> hit_radius then
                 (tw\<lparr>dragging := Some DragPlayhead, drag_offset := x - ph_x\<rparr>, [])
               else
                 (let sec = x_to_seconds tw x
                  in (tw\<lparr>playhead := sec\<rparr>, [SeekRequested sec]))))"

definition mouseMoveEvent :: "timeline_widget \<Rightarrow> real \<Rightarrow> timeline_widget \<times> signal list" where
  "mouseMoveEvent tw x =
     (case dragging tw of
        None \<Rightarrow> (tw, [])
      | Some d \<Rightarrow>
          (let sec0 = x_to_seconds tw (x - drag_offset tw);
               sec = max 0 (min (clip_duration tw) sec0)
           in case d of
                DragStart \<Rightarrow>
                  (let s = min sec (end_marker tw)
                   in (tw\<lparr>start_marker := s\<rparr>, [RangeChanged s (end_marker tw)]))
              | DragEnd \<Rightarrow>
                  (let e = max sec (start_marker tw)
                   in (tw\<lparr>end_marker := e\<rparr>, [RangeChanged (start_marker tw) e]))
              | DragPlayhead \<Rightarrow>
                  (tw\<lparr>playhead := sec\<rparr>, [SeekRequested sec])))"

definition mouseReleaseEvent :: "timeline_widget \<Rightarrow> timeline_widget" where
  "mouseReleaseEvent tw = tw\<lparr>dragging := None\<rparr>"

text \<open>\<open>delta\<close> is \<^verbatim>\<open>event.angleDelta().y()\<close>.\<close>

definition wheelEvent :: "timeline_widget \<Rightarrow> int \<Rightarrow> timeline_widget" where
  "wheelEvent tw delta =
     (if delta > 0 then
        tw\<lparr>pixels_per_second := min (max_pps tw) (pixels_per_second tw * (115 / 100))\<rparr>
      else
        tw\<lparr>pixels_per_second := max (min_pps tw) (pixels_per_second tw / (115 / 100))\<rparr>)"

subsection \<open>Tick marks of \<^verbatim>\<open>paintEvent\<close>\<close>

text \<open>The width of the clip box, the local \<^verbatim>\<open>clip_w\<close>.\<close>

definition clip_w :: "timeline_widget \<Rightarrow> int" where
  "clip_w tw = (if total_width tw \<le> of_int (usable tw) then py_int (total_width tw) else usable tw)"

definition nice :: "int list" where
  "nice = [1, 2, 5, 10, 15, 30, 60, 120, 300, 600]"

text \<open>
  Python's \<^verbatim>\<open>min(xs, key=f)\<close>: the first element with the least key; \<open>None\<close> stands for
  the \<^verbatim>\<open>ValueError\<close> on an empty list.
\<close>

fun min_from :: "('a \<Rightarrow> real) \<Rightarrow> 'a \<Rightarrow> 'a list \<Rightarrow> 'a" where
  "min_from key best [] = best"
| "min_from key best (y # ys) = min_from key (if key y < key best then y else best) ys"

definition py_min :: "('a \<Rightarrow> real) \<Rightarrow> 'a list \<Rightarrow> 'a option" where
  "py_min key xs = (case xs of [] \<Rightarrow> None | x # ys \<Rightarrow> Some (min_from key x ys))"

text \<open>The local \<^verbatim>\<open>duration\<close> of the tick code, and \<^verbatim>\<open>seconds_per_tick\<close> before snapping.\<close>

definition tick_duration :: "timeline_widget \<Rightarrow> real" where
  "tick_duration tw = max 1 (clip_duration tw)"

definition target_px :: real where
  "target_px = 120"

definition seconds_per_tick :: "timeline_widget \<Rightarrow> real" where
  "seconds_per_tick tw =
     max 1 (target_px / max (1 / 1000000) (of_int (clip_w tw) / tick_duration tw))"

definition tick_step :: "timeline_widget \<Rightarrow> int option" where
  "tick_step tw = py_min (\<lambda>x. \<bar>of_int x - seconds_per_tick tw\<bar>) nice"

text \<open>
  A tick as drawn: its time, the pixel column \<^verbatim>\<open>int(tx)\<close> of its line and its label.
  The loop \<^verbatim>\<open>while t <= duration + 0.0001\<close> appends one tick per round; a loop that
  does not end has the value \<open>None\<close>.
\<close>

type_synonym tick = "real \<times> int \<times> string"

definition draw_tick :: "timeline_widget \<Rightarrow> real \<Rightarrow> tick" where
  "draw_tick tw t = (t, py_int (seconds_to_x tw t), sec_to_hms (Some t))"

partial_function (option) tick_loop ::
  "timeline_widget \<Rightarrow> real \<Rightarrow> int \<Rightarrow> real \<Rightarrow> tick list \<Rightarrow> tick list option" where
  "tick_loop tw dur step t acc =
     (if t \<le> dur + 1 / 10000
      then tick_loop tw dur step (t + of_int step) (acc @ [draw_tick tw t])
      else Some acc)"

definition paint_ticks :: "timeline_widget \<Rightarrow> tick list option" where
  "paint_ticks tw =
     (case tick_step tw of
        None \<Rightarrow> None
      | Some step \<Rightarrow> tick_loop tw (tick_duration tw) step 0 [])"

subsection \<open>The editor window: playback clock, seeking, ranges, export\<close>

text \<open>
  The media library's clip object, of which the program reads \<^verbatim>\<open>duration\<close> only.
\<close>

record video_clip =
  duration :: real

datatype status =
    Ready | Loaded string real | Playing | Paused | ExportedTo string | ExportFailed

record editor =
  clip :: "video_clip option"
  is_playing :: bool
  preview_fps :: int
  last_preview_time :: real
  play_start_sys :: "real option"
  play_offset :: real
  timeline :: timeline_widget
  status_label :: status

datatype effect =
    MsgInformation string
  | MsgWarning string
  | MsgCritical string
  | SaveFileDialog
  | Subclip real real
  | WriteVideofile string
  | GetFrame real

text \<open>The window after \<^verbatim>\<open>__init__\<close>, its timeline \<open>w\<close> pixels wide.\<close>

definition init_editor :: "int \<Rightarrow> editor" where
  "init_editor w =
     \<lparr>clip = None, is_playing = False, preview_fps = 12, last_preview_time = 0,
      play_start_sys = None, play_offset = 0, timeline = init_timeline w,
      status_label = Ready\<rparr>"

text \<open>
  \<^verbatim>\<open>load_clip\<close>: \<open>res\<close> is what \<^verbatim>\<open>VideoFileClip(path)\<close> gave, \<open>None\<close> when it raised.
\<close>

definition load_clip :: "editor \<Rightarrow> string \<Rightarrow> video_clip option \<Rightarrow> editor \<times> effect list" where
  "load_clip ed path res =
     (case res of
        None \<Rightarrow> (ed\<lparr>status_label := Ready\<rparr>, [MsgCritical ''Load error''])
      | Some c \<Rightarrow>
          (ed\<lparr>clip := Some c, is_playing := False, play_offset := 0, play_start_sys := None,
              timeline := (set_clip_duration (timeline ed) (duration c))
                 \<lparr>playhead := 0, start_marker := 0, end_marker := duration c\<rparr>,
              status_label := Loaded path (duration c)\<rparr>,
           [GetFrame 0]))"

definition start_playback_at :: "editor \<Rightarrow> real \<Rightarrow> real \<Rightarrow> editor" where
  "start_playback_at ed now start_sec =
     ed\<lparr>is_playing := True, play_offset := start_sec, play_start_sys := Some now,
        status_label := Playing\<rparr>"

text \<open>
  \<^verbatim>\<open>time.time() - (self._play_start_sys or time.time())\<close>: \<open>now\<close> is the first reading; the
  second, \<open>now2\<close>, is taken only when the anchor is \<^verbatim>\<open>None\<close> or \<^verbatim>\<open>0.0\<close> (both falsy).
\<close>

definition pause_playback :: "editor \<Rightarrow> real \<Rightarrow> real \<Rightarrow> editor" where
  "pause_playback ed now now2 =
     (if \<not> is_playing ed then ed
      else
        (let anchor = (case play_start_sys ed of
                         None \<Rightarrow> now2
                       | Some s \<Rightarrow> if s = 0 then now2 else s);
             elapsed = now - anchor;
             current = play_offset ed + elapsed
         in ed\<lparr>timeline := (timeline ed)\<lparr>playhead := current\<rparr>,
               is_playing := False, play_start_sys := None, status_label := Paused\<rparr>))"

definition play_pause :: "editor \<Rightarrow> real \<Rightarrow> real \<Rightarrow> editor" where
  "play_pause ed now now2 =
     (case clip ed of
        None \<Rightarrow> ed
      | Some c \<Rightarrow>
          if is_playing ed then pause_playback ed now now2
          else start_playback_at ed now (playhead (timeline ed)))"

definition stop :: "editor \<Rightarrow> editor" where
  "stop ed =
     (case clip ed of
        None \<Rightarrow> ed
      | Some c \<Rightarrow>
          ed\<lparr>is_playing := False, play_start_sys := None,
             timeline := (timeline ed)\<lparr>playhead := 0\<rparr>, play_offset := 0\<rparr>)"

definition seek_to :: "editor \<Rightarrow> real \<Rightarrow> real \<Rightarrow> editor" where
  "seek_to ed now sec0 =
     (let sec = max 0 (min (case clip ed of Some c \<Rightarrow> duration c | None \<Rightarrow> 0) sec0);
          ed1 = ed\<lparr>timeline := (timeline ed)\<lparr>playhead := sec\<rparr>\<rparr>
      in if is_playing ed then ed1\<lparr>play_offset := sec, play_start_sys := Some now\<rparr> else ed1)"

definition step_by :: "editor \<Rightarrow> real \<Rightarrow> real \<Rightarrow> editor" where
  "step_by ed now seconds =
     (case clip ed of
        None \<Rightarrow> ed
      | Some c \<Rightarrow> seek_to ed now (max 0 (min (duration c) (playhead (timeline ed) + seconds))))"

definition slider_moved :: "editor \<Rightarrow> real \<Rightarrow> int \<Rightarrow> editor" where
  "slider_moved ed now v =
     (case clip ed of
        None \<Rightarrow> ed
      | Some c \<Rightarrow> seek_to ed now (of_int v / 1000))"

text \<open>
  \<^verbatim>\<open>_update_preview_frame\<close> asks the clip for the frame at the playhead, bounded to the
  clip; \<^verbatim>\<open>_on_timer\<close> reads the clock once for the playback position (\<open>now\<close>) and once
  more for the preview throttle (\<open>now2\<close>).
\<close>

definition update_preview_frame :: "editor \<Rightarrow> editor \<times> effect list" where
  "update_preview_frame ed =
     (case clip ed of
        None \<Rightarrow> (ed, [])
      | Some c \<Rightarrow>
          (let t = playhead (timeline ed);
               t1 = (if t < 0 then 0 else t);
               t2 = (if t1 > duration c then duration c else t1)
           in (ed, [GetFrame t2])))"

definition on_timer :: "editor \<Rightarrow> real \<Rightarrow> real \<Rightarrow> editor \<times> effect list" where
  "on_timer ed now now2 =
     (case clip ed of
        None \<Rightarrow> (ed, [])
      | Some c \<Rightarrow>
          (let preview = (\<lambda>e.
                 if now2 - last_preview_time e < 1 / of_int (max 1 (preview_fps e)) then (e, [])
                 else update_preview_frame (e\<lparr>last_preview_time := now2\<rparr>))
           in case (if is_playing ed then play_start_sys ed else None) of
                None \<Rightarrow> preview ed
              | Some anchor \<Rightarrow>
                  (let elapsed = now - anchor;
                       current = play_offset ed + elapsed
                   in if current \<ge> min (duration c) (end_marker (timeline ed))
                      then (stop ed, [])
                      else preview (ed\<lparr>timeline := (timeline ed)\<lparr>playhead := current\<rparr>\<rparr>))))"

definition on_range_changed :: "editor \<Rightarrow> real \<Rightarrow> real \<Rightarrow> real \<Rightarrow> editor" where
  "on_range_changed ed now start_sec end_sec =
     (let ed1 = ed\<lparr>timeline := (timeline ed)\<lparr>start_marker := start_sec, end_marker := end_sec\<rparr>\<rparr>;
          ed2 = (if playhead (timeline ed1) < start_sec then seek_to ed1 now start_sec else ed1)
      in if playhead (timeline ed2) > end_sec then seek_to ed2 now end_sec else ed2)"

definition zoom_changed :: "editor \<Rightarrow> int \<Rightarrow> editor" where
  "zoom_changed ed v =
     (let minv = 40; maxv = 400;
          frac = of_int v / 100;
          pps = minv + (maxv - minv) * frac
      in ed\<lparr>timeline := (timeline ed)\<lparr>pixels_per_second := pps\<rparr>\<rparr>)"

text \<open>
  \<^verbatim>\<open>export_trimmed\<close>: \<open>save_path\<close> is what the save dialog returned (empty when
  cancelled), \<open>outcome\<close> says how far the media library got.
\<close>

datatype media_outcome = SubclipRaises | WriteRaises | Completes

definition export_trimmed :: "editor \<Rightarrow> string \<Rightarrow> media_outcome \<Rightarrow> editor \<times> effect list" where
  "export_trimmed ed save_path outcome =
     (case clip ed of
        None \<Rightarrow> (ed, [MsgInformation ''No clip''])
      | Some c \<Rightarrow>
          (let start = start_marker (timeline ed);
               end = end_marker (timeline ed)
           in if end - start \<le> 1 / 100 then (ed, [MsgWarning ''Invalid range''])
              else if save_path = [] then (ed, [SaveFileDialog])
              else
                (case outcome of
                   SubclipRaises \<Rightarrow>
                     (ed\<lparr>status_label := ExportFailed\<rparr>,
                      [SaveFileDialog, Subclip start end, MsgCritical ''Export error''])
                 | WriteRaises \<Rightarrow>
                     (ed\<lparr>status_label := ExportFailed\<rparr>,
                      [SaveFileDialog, Subclip start end, WriteVideofile save_path,
                       MsgCritical ''Export error''])
                 | Completes \<Rightarrow>
                     (ed\<lparr>status_label := ExportedTo save_path\<rparr>,
                      [SaveFileDialog, Subclip start end, WriteVideofile save_path,
                       MsgInformation ''Export done'']))))"

subsection \<open>Signal delivery\<close>

text \<open>
  \<^verbatim>\<open>range_changed\<close> is connected to \<^verbatim>\<open>_on_range_changed\<close> and \<^verbatim>\<open>seek_requested\<close> to
  \<^verbatim>\<open>_seek_to\<close>. A pointer or wheel event on the timeline is the widget's handler followed
  by the window's handlers for the signals it emitted.
\<close>

definition dispatch :: "real \<Rightarrow> editor \<Rightarrow> signal \<Rightarrow> editor" where
  "dispatch now ed sg =
     (case sg of
        RangeChanged s e \<Rightarrow> on_range_changed ed now s e
      | SeekRequested t \<Rightarrow> seek_to ed now t)"

definition deliver :: "editor \<Rightarrow> real \<Rightarrow> timeline_widget \<times> signal list \<Rightarrow> editor" where
  "deliver ed now r = foldl (dispatch now) (ed\<lparr>timeline := fst r\<rparr>) (snd r)"

definition timeline_press :: "editor \<Rightarrow> real \<Rightarrow> real \<Rightarrow> editor" where
  "timeline_press ed now x = deliver ed now (mousePressEvent (timeline ed) x)"

definition timeline_move :: "editor \<Rightarrow> real \<Rightarrow> real \<Rightarrow> editor" where
  "timeline_move ed now x = deliver ed now (mouseMoveEvent (timeline ed) x)"

definition timeline_release :: "editor \<Rightarrow> editor" where
  "timeline_release ed = ed\<lparr>timeline := mouseReleaseEvent (timeline ed)\<rparr>"

definition timeline_wheel :: "editor \<Rightarrow> int \<Rightarrow> editor" where
  "timeline_wheel ed delta = ed\<lparr>timeline := wheelEvent (timeline ed) delta\<rparr>"

section \<open>Properties\<close>

subsection \<open>Time labels\<close>

lemma str_nat_digit: "n < 10 \<Longrightarrow> str_nat n = [digit_char n]"
  by (simp add: str_nat.simps)

lemma str_nat_two: "10 \<le> n \<Longrightarrow> n < 100 \<Longrightarrow> str_nat n = [digit_char (n div 10), digit_char (n mod 10)]"
  by (subst str_nat.simps) (simp add: str_nat_digit)

lemma fmt_02d_two:
  assumes "0 \<le> k" "k < 100"
  shows "fmt_02d k = [digit_char (nat k div 10), digit_char (nat k mod 10)]"
proof (cases "k < 10")
  case True
  with assms have "fmt_d k = [digit_char (nat k)]"
    by (simp add: fmt_d_def str_nat_digit)
  moreover from True assms have "nat k div 10 = 0" "nat k mod 10 = nat k" by simp_all
  ultimately show ?thesis by (simp add: fmt_02d_def digit_char_def)
next
  case False
  with assms have "fmt_d k = [digit_char (nat k div 10), digit_char (nat k mod 10)]"
    by (simp add: fmt_d_def str_nat_two)
  then show ?thesis by (simp add: fmt_02d_def)
qed

lemma div60_60: "(n::int) div 3600 = n div 60 div 60"
  using zdiv_zmult2_eq [of 60 n 60] by simp

lemma hrs_eq: "py_int (fdiv t 3600) = \<lfloor>t\<rfloor> div 3600"
proof -
  have "\<lfloor>t / 3600\<rfloor> = \<lfloor>t\<rfloor> div 3600"
    using floor_divide_real_eq_div [of 3600 t] by simp
  then show ?thesis by (simp add: py_int_def fdiv_def)
qed

lemma mins_eq: "py_int (fdiv (fmod t 3600) 60) = \<lfloor>t\<rfloor> div 60 mod 60"
proof -
  have a: "\<lfloor>t / 3600\<rfloor> = \<lfloor>t\<rfloor> div 3600"
    using floor_divide_real_eq_div [of 3600 t] by simp
  have b: "\<lfloor>t / 60\<rfloor> = \<lfloor>t\<rfloor> div 60"
    using floor_divide_real_eq_div [of 60 t] by simp
  have "(t - 3600 * of_int (\<lfloor>t\<rfloor> div 3600)) / 60 = t / 60 - of_int (60 * (\<lfloor>t\<rfloor> div 3600))"
    by simp
  then have "\<lfloor>(t - 3600 * of_int (\<lfloor>t\<rfloor> div 3600)) / 60\<rfloor> = \<lfloor>t / 60\<rfloor> - 60 * (\<lfloor>t\<rfloor> div 3600)"
    by (simp only: floor_diff_of_int)
  also have "\<dots> = \<lfloor>t\<rfloor> div 60 mod 60"
    unfolding b using div60_60 [of "\<lfloor>t\<rfloor>"] by (simp add: minus_mult_div_eq_mod)
  finally show ?thesis by (simp add: py_int_def fdiv_def fmod_def a)
qed

lemma secs_eq: "py_int (fmod t 60) = \<lfloor>t\<rfloor> mod 60"
proof -
  have b: "\<lfloor>t / 60\<rfloor> = \<lfloor>t\<rfloor> div 60"
    using floor_divide_real_eq_div [of 60 t] by simp
  have "t - 60 * of_int (\<lfloor>t\<rfloor> div 60) = t - of_int (60 * (\<lfloor>t\<rfloor> div 60))" by simp
  then have c: "\<lfloor>t - 60 * of_int (\<lfloor>t\<rfloor> div 60)\<rfloor> = \<lfloor>t\<rfloor> - 60 * (\<lfloor>t\<rfloor> div 60)"
    by (simp only: floor_diff_of_int)
  have d: "\<lfloor>t\<rfloor> - 60 * (\<lfloor>t\<rfloor> div 60) = \<lfloor>t\<rfloor> mod 60" by presburger
  have "0 \<le> \<lfloor>t\<rfloor> mod 60" by simp
  with c d have "0 \<le> \<lfloor>t - 60 * of_int (\<lfloor>t\<rfloor> div 60)\<rfloor>" by simp
  then have "0 \<le> t - 60 * of_int (\<lfloor>t\<rfloor> div 60)" by (simp only: zero_le_floor)
  then show ?thesis using c d by (simp add: py_int_def fmod_def b)
qed

lemma sec_to_hms_Some:
  "sec_to_hms (Some t) =
     (let n = \<lfloor>max 0 t\<rfloor> in
      if n div 3600 > 0 then fmt_d (n div 3600) @ '':'' @ fmt_02d (n div 60 mod 60) @ '':'' @ fmt_02d (n mod 60)
      else fmt_d (n div 60 mod 60) @ '':'' @ fmt_02d (n mod 60))"
  by (simp only: sec_to_hms_def option.case Let_def hrs_eq mins_eq secs_eq)


lemma short_hrs: "0 \<le> (k::int) \<Longrightarrow> k < 3600 \<Longrightarrow> k div 3600 = 0"
  by simp

lemma short_mins: "0 \<le> (k::int) \<Longrightarrow> k < 3600 \<Longrightarrow> k div 60 mod 60 = k div 60"
  by simp

lemma short_mins_nonneg: "0 \<le> (k::int) \<Longrightarrow> 0 \<le> k div 60"
  by simp

lemma long_hrs: "3600 \<le> (k::int) \<Longrightarrow> 0 < k div 3600"
  by simp

lemma sec_to_hms_neg: "t < 0 \<Longrightarrow> sec_to_hms (Some t) = ''0:00''"
  by (simp add: sec_to_hms_Some max_def fmt_d_def fmt_02d_def str_nat_digit digit_char_def)

lemma sec_to_hms_short:
  assumes "0 \<le> t" "t < 3600"
  shows "sec_to_hms (Some t) =
           str_nat (nat (\<lfloor>t\<rfloor> div 60)) @ '':'' @
           [digit_char (nat (\<lfloor>t\<rfloor> mod 60) div 10), digit_char (nat (\<lfloor>t\<rfloor> mod 60) mod 10)]"
proof -
  from assms have n: "0 \<le> \<lfloor>t\<rfloor>" "\<lfloor>t\<rfloor> < 3600" by (simp_all add: floor_less_iff)
  have h: "\<lfloor>t\<rfloor> div 3600 = 0" by (rule short_hrs [OF n])
  have m: "\<lfloor>t\<rfloor> div 60 mod 60 = \<lfloor>t\<rfloor> div 60" "0 \<le> \<lfloor>t\<rfloor> div 60"
    by (rule short_mins [OF n], rule short_mins_nonneg [OF n(1)])
  have s: "fmt_02d (\<lfloor>t\<rfloor> mod 60) =
             [digit_char (nat (\<lfloor>t\<rfloor> mod 60) div 10), digit_char (nat (\<lfloor>t\<rfloor> mod 60) mod 10)]"
    by (rule fmt_02d_two) simp_all
  from assms have "max 0 t = t" by simp
  then show ?thesis using h m s by (simp add: sec_to_hms_Some fmt_d_def Let_def)
qed

lemma sec_to_hms_long:
  assumes "3600 \<le> t"
  shows "sec_to_hms (Some t) =
           str_nat (nat (\<lfloor>t\<rfloor> div 3600)) @ '':'' @
           [digit_char (nat (\<lfloor>t\<rfloor> div 60 mod 60) div 10), digit_char (nat (\<lfloor>t\<rfloor> div 60 mod 60) mod 10)] @ '':'' @
           [digit_char (nat (\<lfloor>t\<rfloor> mod 60) div 10), digit_char (nat (\<lfloor>t\<rfloor> mod 60) mod 10)]"
proof -
  from assms have n: "3600 \<le> \<lfloor>t\<rfloor>" by (simp add: le_floor_iff)
  have h: "0 < \<lfloor>t\<rfloor> div 3600" by (rule long_hrs [OF n])
  have m: "fmt_02d (\<lfloor>t\<rfloor> div 60 mod 60) =
             [digit_char (nat (\<lfloor>t\<rfloor> div 60 mod 60) div 10), digit_char (nat (\<lfloor>t\<rfloor> div 60 mod 60) mod 10)]"
    by (rule fmt_02d_two) simp_all
  have s: "fmt_02d (\<lfloor>t\<rfloor> mod 60) =
             [digit_char (nat (\<lfloor>t\<rfloor> mod 60) div 10), digit_char (nat (\<lfloor>t\<rfloor> mod 60) mod 10)]"
    by (rule fmt_02d_two) simp_all
  from assms have "max 0 t = t" by simp
  then show ?thesis using h m s by (simp add: sec_to_hms_Some fmt_d_def Let_def)
qed

text \<open>
  Claim C8. \<^verbatim>\<open>sec_to_hms\<close> gives \<^verbatim>\<open>"0:00"\<close> for \<^verbatim>\<open>None\<close> and for a negative time; for a
  time below 3600 seconds it gives \<^verbatim>\<open>M:SS\<close> (the minutes unpadded, the seconds as two
  digits) and from 3600 seconds on \<^verbatim>\<open>H:MM:SS\<close> (the hours unpadded, minutes and seconds
  as two digits each), all read off the whole seconds \<open>\<lfloor>t\<rfloor>\<close>; in particular
  \<^verbatim>\<open>sec_to_hms(0) == "0:00"\<close>, \<^verbatim>\<open>sec_to_hms(65) == "1:05"\<close> and
  \<^verbatim>\<open>sec_to_hms(3661) == "1:01:01"\<close>.
\<close>

theorem sec_to_hms_format:
  "sec_to_hms None = ''0:00'' \<and>
   (t < 0 \<longrightarrow> sec_to_hms (Some t) = ''0:00'') \<and>
   (0 \<le> t \<and> t < 3600 \<longrightarrow>
      sec_to_hms (Some t) =
        str_nat (nat (\<lfloor>t\<rfloor> div 60)) @ '':'' @
        [digit_char (nat (\<lfloor>t\<rfloor> mod 60) div 10), digit_char (nat (\<lfloor>t\<rfloor> mod 60) mod 10)]) \<and>
   (3600 \<le> t \<longrightarrow>
      sec_to_hms (Some t) =
        str_nat (nat (\<lfloor>t\<rfloor> div 3600)) @ '':'' @
        [digit_char (nat (\<lfloor>t\<rfloor> div 60 mod 60) div 10),
         digit_char (nat (\<lfloor>t\<rfloor> div 60 mod 60) mod 10)] @ '':'' @
        [digit_char (nat (\<lfloor>t\<rfloor> mod 60) div 10), digit_char (nat (\<lfloor>t\<rfloor> mod 60) mod 10)]) \<and>
   sec_to_hms (Some 0) = ''0:00'' \<and>
   sec_to_hms (Some 65) = ''1:05'' \<and>
   sec_to_hms (Some 3661) = ''1:01:01''"
proof -
  have a: "sec_to_hms None = ''0:00''" by (simp add: sec_to_hms_def)
  have b: "sec_to_hms (Some 0) = ''0:00''" by code_simp
  have c: "sec_to_hms (Some 65) = ''1:05''" by code_simp
  have d: "sec_to_hms (Some 3661) = ''1:01:01''" by code_simp
  show ?thesis
    using a b c d sec_to_hms_neg [of t] sec_to_hms_short [of t] sec_to_hms_long [of t]
    by blast
qed

theorem sec_to_hms_format_witness:
  "sec_to_hms (Some (- 3)) = ''0:00'' \<and>
   sec_to_hms (Some 754) = ''12:34'' \<and>
   sec_to_hms (Some 45296) = ''12:34:56''"
proof -
  have "sec_to_hms (Some (- 3)) = ''0:00''"
    using sec_to_hms_format [of "- 3"] by simp
  moreover have "sec_to_hms (Some 754) = ''12:34''"
    using sec_to_hms_format [of 754] by (simp add: str_nat.simps digit_char_def)
  moreover have "sec_to_hms (Some 45296) = ''12:34:56''"
    using sec_to_hms_format [of 45296] by (simp add: str_nat.simps digit_char_def)
  ultimately show ?thesis by simp
qed

subsection \<open>Time and pixel mapping\<close>

lemmas layout_defs =
  seconds_to_x_def x_to_seconds_def total_width_def usable_def scale_def
  set_clip_duration_def init_timeline_def

lemma x_to_seconds_range:
  "0 \<le> clip_duration tw \<Longrightarrow> 0 \<le> x_to_seconds tw x \<and> x_to_seconds tw x \<le> clip_duration tw"
  by (simp add: x_to_seconds_def Let_def)

lemma roundtrip_fit:
  assumes "0 \<le> t" "t \<le> clip_duration tw" "total_width tw \<le> of_int (usable tw)"
    "1 / 1000000 \<le> pixels_per_second tw"
  shows "x_to_seconds tw (seconds_to_x tw t) = t"
proof -
  from assms(4) have p: "0 < pixels_per_second tw" by simp
  from assms(4) have m: "max (1 / 1000000) (pixels_per_second tw) = pixels_per_second tw" by simp
  have "x_to_seconds tw (seconds_to_x tw t) =
          max 0 (min (clip_duration tw) (t * pixels_per_second tw / pixels_per_second tw))"
    using assms(3) by (simp add: x_to_seconds_def seconds_to_x_def Let_def m)
  also have "\<dots> = max 0 (min (clip_duration tw) t)" using p by simp
  also have "\<dots> = t" using assms(1,2) by simp
  finally show ?thesis .
qed

lemma roundtrip_scroll:
  assumes "0 \<le> t" "t \<le> clip_duration tw" "\<not> total_width tw \<le> of_int (usable tw)"
    "1 / 1000000 \<le> scale tw"
  shows "x_to_seconds tw (seconds_to_x tw t) = t"
proof -
  from assms(4) have p: "0 < scale tw" by simp
  from assms(4) have m: "max (1 / 1000000) (scale tw) = scale tw" by simp
  have "x_to_seconds tw (seconds_to_x tw t) =
          max 0 (min (clip_duration tw) (t * scale tw / scale tw))"
    using assms(3) by (simp add: x_to_seconds_def seconds_to_x_def Let_def m)
  also have "\<dots> = max 0 (min (clip_duration tw) t)" using p by simp
  also have "\<dots> = t" using assms(1,2) by simp
  finally show ?thesis .
qed

lemma usable_ge_10: "10 \<le> usable tw"
  by (simp add: usable_def)

lemma scale_lower_bound:
  assumes "clip_duration tw \<le> 10000000"
  shows "1 / 1000000 \<le> scale tw"
proof -
  have u: "(10::real) \<le> of_int (usable tw)"
    using usable_ge_10 [of tw] by linarith
  show ?thesis
  proof (cases "clip_duration tw > 0")
    case True
    have "1 / 1000000 = 10 / (10000000::real)" by simp
    also have "\<dots> \<le> 10 / clip_duration tw"
      using True assms by (simp add: frac_le)
    also have "\<dots> \<le> of_int (usable tw) / clip_duration tw"
      using True u by (simp add: divide_right_mono)
    finally show ?thesis using True by (simp add: scale_def)
  next
    case False
    then show ?thesis using u by (simp add: scale_def)
  qed
qed

text \<open>
  Claim C3, as amended. For every \<open>t\<close> in \<open>[0, D]\<close> the round trip
  \<^verbatim>\<open>x_to_seconds(seconds_to_x(t))\<close> gives back \<open>t\<close> (exactly, floats read as reals) in fit
  mode and in scroll mode, provided the scale in force (\<^verbatim>\<open>pixels_per_second\<close> in fit mode,
  \<^verbatim>\<open>usable / D\<close> in scroll mode) is at least the guard \<open>10\<^sup>-\<^sup>6\<close> that \<^verbatim>\<open>x_to_seconds\<close>
  divides by; a zoom of at least \<open>10\<^sup>-\<^sup>6\<close> with a duration of at most \<open>10\<^sup>7\<close> seconds is
  enough for that, whatever the width and the paddings.
\<close>

theorem roundtrip_exact_above_guard:
  "(0 \<le> t \<and> t \<le> clip_duration tw \<and>
    1 / 1000000 \<le> (if total_width tw \<le> of_int (usable tw) then pixels_per_second tw else scale tw) \<longrightarrow>
      x_to_seconds tw (seconds_to_x tw t) = t) \<and>
   (0 \<le> t \<and> t \<le> clip_duration tw \<and> 1 / 1000000 \<le> pixels_per_second tw \<and>
    clip_duration tw \<le> 10000000 \<longrightarrow>
      x_to_seconds tw (seconds_to_x tw t) = t)"
proof -
  have a: "x_to_seconds tw (seconds_to_x tw t) = t"
    if "0 \<le> t" "t \<le> clip_duration tw"
      "1 / 1000000 \<le> (if total_width tw \<le> of_int (usable tw) then pixels_per_second tw else scale tw)"
  proof (cases "total_width tw \<le> of_int (usable tw)")
    case True
    with that show ?thesis by (simp add: roundtrip_fit)
  next
    case False
    with that show ?thesis by (simp add: roundtrip_scroll)
  qed
  have b: "x_to_seconds tw (seconds_to_x tw t) = t"
    if "0 \<le> t" "t \<le> clip_duration tw" "1 / 1000000 \<le> pixels_per_second tw"
      "clip_duration tw \<le> 10000000"
    using that scale_lower_bound [of tw] by (intro a) simp_all
  from a b show ?thesis by blast
qed

theorem roundtrip_exact_above_guard_witness:
  "(let fit = set_clip_duration (init_timeline 1280) 5;
        scroll = set_clip_duration (init_timeline 1280) 125
    in total_width fit \<le> of_int (usable fit) \<and>
       \<not> total_width scroll \<le> of_int (usable scroll) \<and>
       seconds_to_x fit 2 = 580 \<and> x_to_seconds fit (seconds_to_x fit 2) = 2 \<and>
       seconds_to_x scroll 100 = 994 \<and> x_to_seconds scroll (seconds_to_x scroll 100) = 100)"
proof -
  define fit where "fit = set_clip_duration (init_timeline 1280) 5"
  define scroll where "scroll = set_clip_duration (init_timeline 1280) 125"
  have f: "total_width fit \<le> of_int (usable fit)" "seconds_to_x fit 2 = 580"
    "clip_duration fit = 5" "pixels_per_second fit = 120"
    by (simp_all add: fit_def layout_defs)
  have s: "\<not> total_width scroll \<le> of_int (usable scroll)" "seconds_to_x scroll 100 = 994"
    "clip_duration scroll = 125" "scale scroll = 1180 / 125" "pixels_per_second scroll = 120"
    by (simp_all add: scroll_def layout_defs)
  have "x_to_seconds fit (seconds_to_x fit 2) = 2"
    using roundtrip_exact_above_guard [of 2 fit] f by simp
  moreover have "x_to_seconds scroll (seconds_to_x scroll 100) = 100"
    using roundtrip_exact_above_guard [of 100 scroll] s by simp
  ultimately show ?thesis using f s by (simp add: fit_def scroll_def Let_def)
qed

text \<open>
  The claim as stated, for any duration, fails: in a widget 110 pixels wide at the default
  zoom, a clip of \<open>10\<^sup>8\<close> seconds is laid out at \<open>10\<^sup>-\<^sup>7\<close> pixels per second, the inverse
  divides by \<open>10\<^sup>-\<^sup>6\<close> instead, and the end of the clip comes back as \<open>10\<^sup>7\<close> seconds:
  nine pixels' worth of time away.
\<close>

theorem roundtrip_counterexample:
  "(let tw = set_clip_duration (init_timeline 110) 100000000;
        t = 100000000
    in 0 \<le> t \<and> t \<le> clip_duration tw \<and>
       pixels_per_second tw = 120 \<and>
       \<not> total_width tw \<le> of_int (usable tw) \<and>
       scale tw = 1 / 10000000 \<and>
       seconds_to_x tw t = 60 \<and>
       x_to_seconds tw (seconds_to_x tw t) = 10000000 \<and>
       \<not> \<bar>x_to_seconds tw (seconds_to_x tw t) - t\<bar> \<le> 1 / scale tw \<and>
       \<not> \<bar>x_to_seconds tw (seconds_to_x tw t) - t\<bar> \<le> 1 / max (1 / 1000000) (scale tw))"
proof -
  define tw where "tw = set_clip_duration (init_timeline 110) 100000000"
  have d: "clip_duration tw = 100000000" "pixels_per_second tw = 120" "left_padding tw = 50"
    by (simp_all add: tw_def set_clip_duration_def init_timeline_def)
  have u: "usable tw = 10"
    by (simp add: tw_def usable_def set_clip_duration_def init_timeline_def)
  have w: "total_width tw = 12000000000"
    by (simp add: total_width_def d)
  have m: "\<not> total_width tw \<le> of_int (usable tw)"
    by (simp add: w u)
  have sc: "scale tw = 1 / 10000000"
    by (simp add: scale_def d u)
  have x: "seconds_to_x tw 100000000 = 60"
    using m by (simp add: seconds_to_x_def sc d)
  have r: "x_to_seconds tw 60 = 10000000"
    using m by (simp add: x_to_seconds_def sc d)
  show ?thesis
    unfolding Let_def tw_def [symmetric]
    by (simp add: d m sc x r)
qed

subsection \<open>Pointer events\<close>

text \<open>
  Claim C5. A press at pixel \<open>x\<close> is tested against the start marker, the end marker and
  the playhead, in that order, with a radius of 10 pixels; the first one within the radius
  becomes the dragged element, with the offset \<open>x - matchedX\<close> recorded and no signal
  emitted. When none is within the radius, the press sets the playhead to
  \<^verbatim>\<open>x_to_seconds(x)\<close>, emits \<^verbatim>\<open>seek_requested\<close> with that time (which the window answers with
  \<^verbatim>\<open>_seek_to\<close>) and leaves the dragging state as it was. A press on the pixel of a playhead
  that coincides with the start marker drags the start marker.
\<close>

theorem press_hit_test:
  "(let start_x = seconds_to_x tw (start_marker tw);
        end_x = seconds_to_x tw (end_marker tw);
        ph_x = seconds_to_x tw (playhead tw)
    in (\<bar>x - start_x\<bar> \<le> 10 \<longrightarrow>
          mousePressEvent tw x = (tw\<lparr>dragging := Some DragStart, drag_offset := x - start_x\<rparr>, [])) \<and>
       (\<bar>x - start_x\<bar> > 10 \<and> \<bar>x - end_x\<bar> \<le> 10 \<longrightarrow>
          mousePressEvent tw x = (tw\<lparr>dragging := Some DragEnd, drag_offset := x - end_x\<rparr>, [])) \<and>
       (\<bar>x - start_x\<bar> > 10 \<and> \<bar>x - end_x\<bar> > 10 \<and> \<bar>x - ph_x\<bar> \<le> 10 \<longrightarrow>
          mousePressEvent tw x = (tw\<lparr>dragging := Some DragPlayhead, drag_offset := x - ph_x\<rparr>, [])) \<and>
       (\<bar>x - start_x\<bar> > 10 \<and> \<bar>x - end_x\<bar> > 10 \<and> \<bar>x - ph_x\<bar> > 10 \<longrightarrow>
          mousePressEvent tw x = (tw\<lparr>playhead := x_to_seconds tw x\<rparr>, [SeekRequested (x_to_seconds tw x)]) \<and>
          dragging (fst (mousePressEvent tw x)) = dragging tw \<and>
          drag_offset (fst (mousePressEvent tw x)) = drag_offset tw) \<and>
       (\<bar>x - start_x\<bar> > 10 \<and> \<bar>x - end_x\<bar> > 10 \<and> \<bar>x - ph_x\<bar> > 10 \<and> timeline ed = tw \<longrightarrow>
          timeline_press ed now x =
            seek_to (ed\<lparr>timeline := tw\<lparr>playhead := x_to_seconds tw x\<rparr>\<rparr>) now (x_to_seconds tw x)) \<and>
       (start_marker tw = playhead tw \<longrightarrow>
          dragging (fst (mousePressEvent tw ph_x)) = Some DragStart \<and>
          snd (mousePressEvent tw ph_x) = []))"
  by (simp add: mousePressEvent_def hit_radius_def Let_def timeline_press_def deliver_def
      dispatch_def)

theorem press_hit_test_witness:
  "(let tw = set_clip_duration (init_timeline 1280) 10
    in start_marker tw = playhead tw \<and> seconds_to_x tw (playhead tw) = 50 \<and>
       mousePressEvent tw 50 = (tw\<lparr>dragging := Some DragStart, drag_offset := 0\<rparr>, []) \<and>
       mousePressEvent tw 55 = (tw\<lparr>dragging := Some DragStart, drag_offset := 5\<rparr>, []) \<and>
       mousePressEvent tw 1225 = (tw\<lparr>dragging := Some DragEnd, drag_offset := - 5\<rparr>, []) \<and>
       mousePressEvent (tw\<lparr>playhead := 5\<rparr>) 645 =
         (tw\<lparr>playhead := 5, dragging := Some DragPlayhead, drag_offset := 5\<rparr>, []) \<and>
       mousePressEvent tw 286 = (tw\<lparr>playhead := 2\<rparr>, [SeekRequested 2]) \<and>
       timeline_press ((init_editor 1280)\<lparr>clip := Some \<lparr>duration = 10\<rparr>, timeline := tw\<rparr>) 1000 286 =
         (init_editor 1280)\<lparr>clip := Some \<lparr>duration = 10\<rparr>, timeline := tw\<lparr>playhead := 2\<rparr>\<rparr>)"
proof -
  define tw where "tw = set_clip_duration (init_timeline 1280) 10"
  define ed where "ed = (init_editor 1280)\<lparr>clip := Some \<lparr>duration = 10\<rparr>, timeline := tw\<rparr>"
  have x: "seconds_to_x tw (start_marker tw) = 50" "seconds_to_x tw (end_marker tw) = 1230"
    "seconds_to_x tw (playhead tw) = 50" "x_to_seconds tw 286 = 2"
    "seconds_to_x (tw\<lparr>playhead := 5\<rparr>) (start_marker tw) = 50"
    "seconds_to_x (tw\<lparr>playhead := 5\<rparr>) (end_marker tw) = 1230"
    "seconds_to_x (tw\<lparr>playhead := 5\<rparr>) 5 = 640"
    by (simp_all add: tw_def layout_defs)
  have "start_marker tw = playhead tw" by (simp add: tw_def layout_defs)
  moreover have "mousePressEvent tw 50 = (tw\<lparr>dragging := Some DragStart, drag_offset := 0\<rparr>, [])"
    using press_hit_test [of tw 50] by (simp add: x Let_def)
  moreover have "mousePressEvent tw 55 = (tw\<lparr>dragging := Some DragStart, drag_offset := 5\<rparr>, [])"
    using press_hit_test [of tw 55] by (simp add: x Let_def)
  moreover have "mousePressEvent tw 1225 = (tw\<lparr>dragging := Some DragEnd, drag_offset := - 5\<rparr>, [])"
    using press_hit_test [of tw 1225] by (simp add: x Let_def)
  moreover have "mousePressEvent (tw\<lparr>playhead := 5\<rparr>) 645 =
         (tw\<lparr>playhead := 5, dragging := Some DragPlayhead, drag_offset := 5\<rparr>, [])"
    using press_hit_test [of "tw\<lparr>playhead := 5\<rparr>" 645] by (simp add: x Let_def)
  moreover have "mousePressEvent tw 286 = (tw\<lparr>playhead := 2\<rparr>, [SeekRequested 2])"
    using press_hit_test [of tw 286] by (simp add: x Let_def)
  moreover have "timeline_press ed 1000 286 = ed\<lparr>timeline := tw\<lparr>playhead := 2\<rparr>\<rparr>"
  proof -
    have "timeline_press ed 1000 286 = seek_to (ed\<lparr>timeline := tw\<lparr>playhead := 2\<rparr>\<rparr>) 1000 2"
      using press_hit_test [of tw 286 ed 1000] by (simp add: x Let_def ed_def)
    then show ?thesis by (simp add: seek_to_def ed_def init_editor_def)
  qed
  ultimately show ?thesis using x(3) by (simp add: tw_def ed_def Let_def)
qed

lemma seek_to_markers:
  "start_marker (timeline (seek_to ed now s)) = start_marker (timeline ed)"
  "end_marker (timeline (seek_to ed now s)) = end_marker (timeline ed)"
  "clip_duration (timeline (seek_to ed now s)) = clip_duration (timeline ed)"
  by (simp_all add: seek_to_def Let_def)

lemma on_range_changed_markers:
  "start_marker (timeline (on_range_changed ed now s e)) = s"
  "end_marker (timeline (on_range_changed ed now s e)) = e"
  "clip_duration (timeline (on_range_changed ed now s e)) = clip_duration (timeline ed)"
  by (simp_all add: on_range_changed_def Let_def seek_to_markers)

lemma timeline_move_markers:
  "start_marker (timeline (timeline_move ed now x)) = start_marker (fst (mouseMoveEvent (timeline ed) x)) \<and>
   end_marker (timeline (timeline_move ed now x)) = end_marker (fst (mouseMoveEvent (timeline ed) x)) \<and>
   clip_duration (timeline (timeline_move ed now x)) = clip_duration (timeline ed)"
proof (cases "dragging (timeline ed)")
  case None
  then show ?thesis by (simp add: timeline_move_def deliver_def mouseMoveEvent_def)
next
  case (Some d)
  then show ?thesis
    by (cases d)
      (simp_all add: timeline_move_def deliver_def mouseMoveEvent_def Let_def dispatch_def
        on_range_changed_markers seek_to_markers)
qed

lemma mouse_move_markers:
  assumes "0 \<le> start_marker tw" "start_marker tw \<le> end_marker tw"
    "end_marker tw \<le> clip_duration tw"
  shows "(let t = max 0 (min (clip_duration tw) (x_to_seconds tw (x - drag_offset tw)));
              tw' = fst (mouseMoveEvent tw x)
          in 0 \<le> t \<and> t \<le> clip_duration tw \<and>
             0 \<le> start_marker tw' \<and> start_marker tw' \<le> end_marker tw' \<and>
             end_marker tw' \<le> clip_duration tw' \<and> clip_duration tw' = clip_duration tw \<and>
             (dragging tw = Some DragStart \<longrightarrow>
                start_marker tw' = min t (end_marker tw) \<and> end_marker tw' = end_marker tw \<and>
                start_marker tw' \<le> end_marker tw) \<and>
             (dragging tw = Some DragEnd \<longrightarrow>
                end_marker tw' = max t (start_marker tw) \<and> start_marker tw' = start_marker tw \<and>
                start_marker tw \<le> end_marker tw') \<and>
             (dragging tw \<noteq> Some DragStart \<and> dragging tw \<noteq> Some DragEnd \<longrightarrow>
                start_marker tw' = start_marker tw \<and> end_marker tw' = end_marker tw))"
proof (cases "dragging tw")
  case None
  with assms show ?thesis by (simp add: mouseMoveEvent_def Let_def)
next
  case (Some d)
  with assms show ?thesis
    by (cases d) (auto simp add: mouseMoveEvent_def Let_def)
qed

text \<open>
  Claim C4. With \<open>0 \<le> S \<le> E \<le> D\<close> before a move, the time \<open>t\<close> of a move is within
  \<open>[0, D]\<close> and \<open>0 \<le> S' \<le> E' \<le> D\<close> holds after it: dragging the start marker gives
  \<open>S' = min t E\<close>, dragging the end marker gives \<open>E' = max t S\<close>, any other move leaves both
  alone, and the window's handler of \<^verbatim>\<open>range_changed\<close> stores the same two values.
  \<^verbatim>\<open>set_clip_duration\<close> and loading a clip reset the markers to \<open>S = 0\<close>, \<open>E = D\<close>.
\<close>

theorem markers_stay_ordered:
  "(0 \<le> start_marker tw \<and> start_marker tw \<le> end_marker tw \<and> end_marker tw \<le> clip_duration tw \<longrightarrow>
      (let t = max 0 (min (clip_duration tw) (x_to_seconds tw (x - drag_offset tw)));
           tw' = fst (mouseMoveEvent tw x)
       in 0 \<le> t \<and> t \<le> clip_duration tw \<and>
          0 \<le> start_marker tw' \<and> start_marker tw' \<le> end_marker tw' \<and>
          end_marker tw' \<le> clip_duration tw' \<and> clip_duration tw' = clip_duration tw \<and>
          (dragging tw = Some DragStart \<longrightarrow>
             start_marker tw' = min t (end_marker tw) \<and> end_marker tw' = end_marker tw \<and>
             start_marker tw' \<le> end_marker tw) \<and>
          (dragging tw = Some DragEnd \<longrightarrow>
             end_marker tw' = max t (start_marker tw) \<and> start_marker tw' = start_marker tw \<and>
             start_marker tw \<le> end_marker tw') \<and>
          (dragging tw \<noteq> Some DragStart \<and> dragging tw \<noteq> Some DragEnd \<longrightarrow>
             start_marker tw' = start_marker tw \<and> end_marker tw' = end_marker tw))) \<and>
   start_marker (timeline (timeline_move ed now x)) = start_marker (fst (mouseMoveEvent (timeline ed) x)) \<and>
   end_marker (timeline (timeline_move ed now x)) = end_marker (fst (mouseMoveEvent (timeline ed) x)) \<and>
   clip_duration (timeline (timeline_move ed now x)) = clip_duration (timeline ed) \<and>
   start_marker (set_clip_duration tw d) = 0 \<and>
   end_marker (set_clip_duration tw d) = clip_duration (set_clip_duration tw d) \<and>
   clip_duration (set_clip_duration tw d) = max 0 d \<and>
   0 \<le> clip_duration (set_clip_duration tw d) \<and>
   (0 \<le> duration c \<longrightarrow>
      start_marker (timeline (fst (load_clip ed path (Some c)))) = 0 \<and>
      end_marker (timeline (fst (load_clip ed path (Some c)))) = duration c \<and>
      clip_duration (timeline (fst (load_clip ed path (Some c)))) = duration c)"
proof -
  have s: "start_marker (set_clip_duration tw d) = 0"
    "end_marker (set_clip_duration tw d) = clip_duration (set_clip_duration tw d)"
    "clip_duration (set_clip_duration tw d) = max 0 d"
    "0 \<le> clip_duration (set_clip_duration tw d)"
    by (simp_all add: set_clip_duration_def)
  have l: "start_marker (timeline (fst (load_clip ed path (Some c)))) = 0 \<and>
      end_marker (timeline (fst (load_clip ed path (Some c)))) = duration c \<and>
      clip_duration (timeline (fst (load_clip ed path (Some c)))) = duration c"
    if "0 \<le> duration c"
    using that by (simp add: load_clip_def set_clip_duration_def)
  from s l mouse_move_markers [of tw x] timeline_move_markers [of ed now x]
  show ?thesis by blast
qed

theorem markers_stay_ordered_witness:
  "(let tw = (set_clip_duration (init_timeline 1280) 10)\<lparr>start_marker := 4, end_marker := 6\<rparr>
    in start_marker (fst (mouseMoveEvent (tw\<lparr>dragging := Some DragStart\<rparr>) 2000)) = 6 \<and>
       end_marker (fst (mouseMoveEvent (tw\<lparr>dragging := Some DragStart\<rparr>) 2000)) = 6 \<and>
       start_marker (fst (mouseMoveEvent (tw\<lparr>dragging := Some DragEnd\<rparr>) 0)) = 4 \<and>
       end_marker (fst (mouseMoveEvent (tw\<lparr>dragging := Some DragEnd\<rparr>) 0)) = 4 \<and>
       end_marker (fst (mouseMoveEvent (tw\<lparr>dragging := Some DragEnd\<rparr>) 2000)) = 10 \<and>
       start_marker (fst (mouseMoveEvent (tw\<lparr>dragging := Some DragPlayhead\<rparr>) 2000)) = 4 \<and>
       end_marker (fst (mouseMoveEvent (tw\<lparr>dragging := Some DragPlayhead\<rparr>) 2000)) = 6 \<and>
       end_marker (timeline (fst (load_clip (init_editor 1280) ''a.mp4'' (Some \<lparr>duration = 10\<rparr>)))) = 10)"
proof -
  define tw where "tw = (set_clip_duration (init_timeline 1280) 10)\<lparr>start_marker := 4, end_marker := 6\<rparr>"
  have x: "x_to_seconds (tw\<lparr>dragging := Some DragStart\<rparr>) 2000 = 10"
    "x_to_seconds (tw\<lparr>dragging := Some DragEnd\<rparr>) 2000 = 10"
    "x_to_seconds (tw\<lparr>dragging := Some DragEnd\<rparr>) 0 = 0"
    by (simp_all add: tw_def layout_defs)
  have v: "start_marker tw = 4" "end_marker tw = 6" "clip_duration tw = 10" "drag_offset tw = 0"
    by (simp_all add: tw_def layout_defs)
  have "start_marker (fst (mouseMoveEvent (tw\<lparr>dragging := Some DragStart\<rparr>) 2000)) = 6 \<and>
        end_marker (fst (mouseMoveEvent (tw\<lparr>dragging := Some DragStart\<rparr>) 2000)) = 6"
    using markers_stay_ordered [of "tw\<lparr>dragging := Some DragStart\<rparr>" 2000]
    by (simp add: x v Let_def)
  moreover have "start_marker (fst (mouseMoveEvent (tw\<lparr>dragging := Some DragEnd\<rparr>) 0)) = 4 \<and>
        end_marker (fst (mouseMoveEvent (tw\<lparr>dragging := Some DragEnd\<rparr>) 0)) = 4"
    using markers_stay_ordered [of "tw\<lparr>dragging := Some DragEnd\<rparr>" 0]
    by (simp add: x v Let_def)
  moreover have "end_marker (fst (mouseMoveEvent (tw\<lparr>dragging := Some DragEnd\<rparr>) 2000)) = 10"
    using markers_stay_ordered [of "tw\<lparr>dragging := Some DragEnd\<rparr>" 2000]
    by (simp add: x v Let_def)
  moreover have "start_marker (fst (mouseMoveEvent (tw\<lparr>dragging := Some DragPlayhead\<rparr>) 2000)) = 4 \<and>
        end_marker (fst (mouseMoveEvent (tw\<lparr>dragging := Some DragPlayhead\<rparr>) 2000)) = 6"
    using markers_stay_ordered [of "tw\<lparr>dragging := Some DragPlayhead\<rparr>" 2000]
    by (simp add: v Let_def)
  moreover have "end_marker (timeline (fst (load_clip (init_editor 1280) ''a.mp4'' (Some \<lparr>duration = 10\<rparr>)))) = 10"
    using markers_stay_ordered [where c = "\<lparr>duration = 10\<rparr>" and ed = "init_editor 1280" and path = "''a.mp4''"]
    by simp
  ultimately show ?thesis by (simp add: tw_def Let_def)
qed

subsection \<open>Zoom\<close>

text \<open>
  Claim C7. The wheel and the zoom slider change \<^verbatim>\<open>pixels_per_second\<close> and nothing else.
  From a zoom within \<open>[min_pps, max_pps]\<close> a wheel step with a positive delta gives the
  zoom times 1.15 and any other step the zoom divided by 1.15, clamped to
  \<open>[min_pps, max_pps]\<close>. The slider value \<open>v\<close> gives \<open>40 + 360 * v / 100\<close>, which is 40
  at 0, 400 at 100 and within \<open>[40, 400]\<close> between. Neither changes a marker or the
  playhead.
\<close>

theorem zoom_changes_only_pps:
  "wheelEvent tw delta = tw\<lparr>pixels_per_second := pixels_per_second (wheelEvent tw delta)\<rparr> \<and>
   (0 \<le> min_pps tw \<and> min_pps tw \<le> pixels_per_second tw \<and> pixels_per_second tw \<le> max_pps tw \<longrightarrow>
      pixels_per_second (wheelEvent tw delta) =
        (if delta > 0 then max (min_pps tw) (min (max_pps tw) (pixels_per_second tw * (115 / 100)))
         else max (min_pps tw) (min (max_pps tw) (pixels_per_second tw / (115 / 100)))) \<and>
      min_pps tw \<le> pixels_per_second (wheelEvent tw delta) \<and>
      pixels_per_second (wheelEvent tw delta) \<le> max_pps tw) \<and>
   timeline_wheel ed delta =
     ed\<lparr>timeline := (timeline ed)\<lparr>pixels_per_second := pixels_per_second (wheelEvent (timeline ed) delta)\<rparr>\<rparr> \<and>
   zoom_changed ed v =
     ed\<lparr>timeline := (timeline ed)\<lparr>pixels_per_second := 40 + (400 - 40) * (of_int v / 100)\<rparr>\<rparr> \<and>
   (0 \<le> v \<and> v \<le> 100 \<longrightarrow>
      40 \<le> pixels_per_second (timeline (zoom_changed ed v)) \<and>
      pixels_per_second (timeline (zoom_changed ed v)) \<le> 400) \<and>
   pixels_per_second (timeline (zoom_changed ed 0)) = 40 \<and>
   pixels_per_second (timeline (zoom_changed ed 100)) = 400 \<and>
   start_marker (wheelEvent tw delta) = start_marker tw \<and>
   end_marker (wheelEvent tw delta) = end_marker tw \<and>
   playhead (wheelEvent tw delta) = playhead tw \<and>
   start_marker (timeline (zoom_changed ed v)) = start_marker (timeline ed) \<and>
   end_marker (timeline (zoom_changed ed v)) = end_marker (timeline ed) \<and>
   playhead (timeline (zoom_changed ed v)) = playhead (timeline ed)"
proof -
  have w: "wheelEvent tw delta = tw\<lparr>pixels_per_second := pixels_per_second (wheelEvent tw delta)\<rparr>"
    by (simp add: wheelEvent_def)
  have r: "pixels_per_second (wheelEvent tw delta) =
        (if delta > 0 then max (min_pps tw) (min (max_pps tw) (pixels_per_second tw * (115 / 100)))
         else max (min_pps tw) (min (max_pps tw) (pixels_per_second tw / (115 / 100)))) \<and>
      min_pps tw \<le> pixels_per_second (wheelEvent tw delta) \<and>
      pixels_per_second (wheelEvent tw delta) \<le> max_pps tw"
    if "0 \<le> min_pps tw" "min_pps tw \<le> pixels_per_second tw" "pixels_per_second tw \<le> max_pps tw"
  proof -
    from that have "pixels_per_second tw \<le> pixels_per_second tw * (115 / 100)"
      and "pixels_per_second tw / (115 / 100) \<le> pixels_per_second tw"
      by simp_all
    with that show ?thesis by (simp add: wheelEvent_def max_def min_def)
  qed
  have e: "timeline_wheel ed delta =
     ed\<lparr>timeline := (timeline ed)\<lparr>pixels_per_second := pixels_per_second (wheelEvent (timeline ed) delta)\<rparr>\<rparr>"
    by (simp add: timeline_wheel_def wheelEvent_def)
  have z: "zoom_changed ed v =
     ed\<lparr>timeline := (timeline ed)\<lparr>pixels_per_second := 40 + (400 - 40) * (of_int v / 100)\<rparr>\<rparr>"
    by (simp add: zoom_changed_def Let_def)
  have b: "40 \<le> pixels_per_second (timeline (zoom_changed ed v)) \<and>
      pixels_per_second (timeline (zoom_changed ed v)) \<le> 400" if "0 \<le> v" "v \<le> 100"
  proof -
    from that have "(0::real) \<le> of_int v" "of_int v \<le> (100::real)" by simp_all
    then show ?thesis by (simp add: zoom_changed_def Let_def)
  qed
  have c: "pixels_per_second (timeline (zoom_changed ed 0)) = 40"
    "pixels_per_second (timeline (zoom_changed ed 100)) = 400"
    by (simp_all add: zoom_changed_def Let_def)
  have f: "start_marker (wheelEvent tw delta) = start_marker tw"
    "end_marker (wheelEvent tw delta) = end_marker tw"
    "playhead (wheelEvent tw delta) = playhead tw"
    by (simp_all add: wheelEvent_def)
  have g: "start_marker (timeline (zoom_changed ed v)) = start_marker (timeline ed)"
    "end_marker (timeline (zoom_changed ed v)) = end_marker (timeline ed)"
    "playhead (timeline (zoom_changed ed v)) = playhead (timeline ed)"
    by (simp_all add: zoom_changed_def Let_def)
  from w r e z b c f g show ?thesis by blast
qed

theorem zoom_changes_only_pps_witness:
  "pixels_per_second (wheelEvent (init_timeline 1280) 120) = 138 \<and>
   pixels_per_second (wheelEvent ((init_timeline 1280)\<lparr>pixels_per_second := 900\<rparr>) 120) = 1000 \<and>
   pixels_per_second (wheelEvent ((init_timeline 1280)\<lparr>pixels_per_second := 46\<rparr>) (- 120)) = 40 \<and>
   pixels_per_second (wheelEvent ((init_timeline 1280)\<lparr>pixels_per_second := 41\<rparr>) (- 120)) = 40 \<and>
   pixels_per_second (timeline (zoom_changed (init_editor 1280) 28)) = 1408 / 10"
proof -
  have "pixels_per_second (wheelEvent (init_timeline 1280) 120) = 138"
    using zoom_changes_only_pps [of "init_timeline 1280" 120]
    by (simp add: init_timeline_def)
  moreover have "pixels_per_second (wheelEvent ((init_timeline 1280)\<lparr>pixels_per_second := 900\<rparr>) 120) = 1000"
    using zoom_changes_only_pps [of "(init_timeline 1280)\<lparr>pixels_per_second := 900\<rparr>" 120]
    by (simp add: init_timeline_def)
  moreover have "pixels_per_second (wheelEvent ((init_timeline 1280)\<lparr>pixels_per_second := 46\<rparr>) (- 120)) = 40"
    using zoom_changes_only_pps [of "(init_timeline 1280)\<lparr>pixels_per_second := 46\<rparr>" "- 120"]
    by (simp add: init_timeline_def)
  moreover have "pixels_per_second (wheelEvent ((init_timeline 1280)\<lparr>pixels_per_second := 41\<rparr>) (- 120)) = 40"
    using zoom_changes_only_pps [of "(init_timeline 1280)\<lparr>pixels_per_second := 41\<rparr>" "- 120"]
    by (simp add: init_timeline_def)
  moreover have "pixels_per_second (timeline (zoom_changed (init_editor 1280) 28)) = 1408 / 10"
    using zoom_changes_only_pps [of _ _ "init_editor 1280" 28]
    by (simp add: init_editor_def init_timeline_def)
  ultimately show ?thesis by blast
qed

subsection \<open>Playback clock\<close>

lemma on_timer_auto_stop:
  assumes "clip ed = Some c" "is_playing ed" "play_start_sys ed = Some a"
    and "min (duration c) (end_marker (timeline ed)) \<le> play_offset ed + (now - a)"
  shows "on_timer ed now now2 = (stop ed, [])"
  using assms by (simp add: on_timer_def Let_def)

text \<open>
  Claim C1, as amended. When the timer fires while playing and the derived position
  \<open>offset + (now - startInstant)\<close> has reached \<open>min D E\<close>, playback stops through
  \<^verbatim>\<open>stop()\<close>: the state is no longer playing, the clock anchor is dropped, and the playhead
  and the play offset are reset to 0.
\<close>

theorem auto_stop_resets_playhead:
  assumes "clip ed = Some c" and "is_playing ed" and "play_start_sys ed = Some a"
    and "min (duration c) (end_marker (timeline ed)) \<le> play_offset ed + (now - a)"
  shows "on_timer ed now now2 =
           (ed\<lparr>is_playing := False, play_start_sys := None,
               timeline := (timeline ed)\<lparr>playhead := 0\<rparr>, play_offset := 0\<rparr>, []) \<and>
         \<not> is_playing (fst (on_timer ed now now2)) \<and>
         play_start_sys (fst (on_timer ed now now2)) = None \<and>
         playhead (timeline (fst (on_timer ed now now2))) = 0 \<and>
         play_offset (fst (on_timer ed now now2)) = 0"
  using assms(1) by (simp add: on_timer_auto_stop [OF assms] stop_def)

theorem auto_stop_resets_playhead_witness:
  "(let ed0 = fst (load_clip (init_editor 1280) ''a.mp4'' (Some \<lparr>duration = 10\<rparr>));
        ed1 = on_range_changed ed0 999 0 5;
        ed = start_playback_at ed1 1000 0
    in clip ed = Some \<lparr>duration = 10\<rparr> \<and> is_playing ed \<and> play_start_sys ed = Some 1000 \<and>
       play_offset ed = 0 \<and> end_marker (timeline ed) = 5 \<and>
       \<not> is_playing (fst (on_timer ed 1006 1006)) \<and>
       playhead (timeline (fst (on_timer ed 1006 1006))) = 0)"
  using auto_stop_resets_playhead
    [of "start_playback_at
           (on_range_changed (fst (load_clip (init_editor 1280) ''a.mp4'' (Some \<lparr>duration = 10\<rparr>))) 999 0 5)
           1000 0"
        "\<lparr>duration = 10\<rparr>" 1000 1006 1006]
  by (simp add: Let_def start_playback_at_def on_range_changed_def load_clip_def init_editor_def
      init_timeline_def set_clip_duration_def seek_to_def)

text \<open>
  The claim as stated has the playhead clamped to \<open>min D E\<close>. Playing from 0 with
  \<open>E = 5\<close> in a clip of 10 seconds, the tick five seconds later stops playback with the
  playhead at 0, not at 5.
\<close>

theorem auto_stop_clamp_counterexample:
  "(let ed0 = fst (load_clip (init_editor 1280) ''a.mp4'' (Some \<lparr>duration = 10\<rparr>));
        ed1 = on_range_changed ed0 999 0 5;
        ed = start_playback_at ed1 1000 0;
        ed' = fst (on_timer ed 1005 1005)
    in is_playing ed \<and> play_offset ed = 0 \<and> play_start_sys ed = Some 1000 \<and>
       end_marker (timeline ed) = 5 \<and> clip_duration (timeline ed) = 10 \<and>
       min (clip_duration (timeline ed)) (end_marker (timeline ed)) \<le> play_offset ed + (1005 - 1000) \<and>
       \<not> is_playing ed' \<and>
       playhead (timeline ed') = 0 \<and>
       playhead (timeline ed') \<noteq> min (clip_duration (timeline ed)) (end_marker (timeline ed)))"
  by (simp add: Let_def start_playback_at_def on_range_changed_def load_clip_def init_editor_def
      init_timeline_def set_clip_duration_def seek_to_def on_timer_def stop_def)

lemma seek_to_playing:
  assumes "is_playing ed" "clip ed = Some c" "0 \<le> s" "s \<le> duration c"
  shows "seek_to ed now s =
           ed\<lparr>timeline := (timeline ed)\<lparr>playhead := s\<rparr>, play_offset := s, play_start_sys := Some now\<rparr>"
  using assms by (simp add: seek_to_def Let_def)

text \<open>
  Claim C6. A seek to a time \<open>s\<close> of the clip while playing sets the play offset to \<open>s\<close>
  and the clock anchor to the time of the seek, and playback goes on; the position derived
  at a later time \<open>now'\<close>, by the timer (before the out-point) or by a pause, is
  \<open>s + (now' - now)\<close>. (A target \<open>s0\<close> outside the clip is clamped into \<open>[0, D]\<close> first.)
\<close>

theorem seek_while_playing_reanchors:
  assumes "is_playing ed" and "clip ed = Some c" and "0 \<le> s" and "s \<le> duration c"
  shows "play_offset (seek_to ed now s) = s \<and>
         play_start_sys (seek_to ed now s) = Some now \<and>
         is_playing (seek_to ed now s) \<and>
         playhead (timeline (seek_to ed now s)) = s \<and>
         play_offset (seek_to ed now s0) = max 0 (min (duration c) s0) \<and>
         play_start_sys (seek_to ed now s0) = Some now \<and>
         (s + (now' - now) < min (duration c) (end_marker (timeline ed)) \<longrightarrow>
            playhead (timeline (fst (on_timer (seek_to ed now s) now' now2))) = s + (now' - now)) \<and>
         (now \<noteq> 0 \<longrightarrow>
            playhead (timeline (pause_playback (seek_to ed now s) now' now2)) = s + (now' - now))"
proof -
  note eq = seek_to_playing [OF assms, of now]
  have a: "play_offset (seek_to ed now s) = s" "play_start_sys (seek_to ed now s) = Some now"
    "is_playing (seek_to ed now s)" "playhead (timeline (seek_to ed now s)) = s"
    using assms(1) by (simp_all add: eq)
  have g: "play_offset (seek_to ed now s0) = max 0 (min (duration c) s0)"
    "play_start_sys (seek_to ed now s0) = Some now"
    using assms(1,2) by (simp_all add: seek_to_def Let_def)
  have b: "playhead (timeline (fst (on_timer (seek_to ed now s) now' now2))) = s + (now' - now)"
    if "s + (now' - now) < min (duration c) (end_marker (timeline ed))"
    using that assms(1,2)
    by (auto simp add: eq on_timer_def Let_def update_preview_frame_def)
  have c: "playhead (timeline (pause_playback (seek_to ed now s) now' now2)) = s + (now' - now)"
    if "now \<noteq> 0"
    using that assms(1) by (simp add: eq pause_playback_def Let_def)
  from a g b c show ?thesis by blast
qed

theorem seek_while_playing_reanchors_witness:
  "(let ed0 = fst (load_clip (init_editor 1280) ''a.mp4'' (Some \<lparr>duration = 10\<rparr>));
        ed = start_playback_at ed0 1000 2;
        ed' = seek_to ed 1001 7
    in is_playing ed \<and> play_offset ed = 2 \<and> play_start_sys ed = Some 1000 \<and>
       play_offset ed' = 7 \<and> play_start_sys ed' = Some 1001 \<and>
       playhead (timeline (fst (on_timer ed' (1001 + 1 / 1000) (1001 + 1 / 1000)))) = 7 + 1 / 1000 \<and>
       playhead (timeline (pause_playback ed' (1001 + 1 / 1000) (1001 + 1 / 1000))) = 7 + 1 / 1000)"
  using seek_while_playing_reanchors
    [of "start_playback_at (fst (load_clip (init_editor 1280) ''a.mp4'' (Some \<lparr>duration = 10\<rparr>))) 1000 2"
        "\<lparr>duration = 10\<rparr>" 7 1001 7 "1001 + 1 / 1000" "1001 + 1 / 1000"]
  by (simp add: Let_def start_playback_at_def load_clip_def init_editor_def init_timeline_def
      set_clip_duration_def)

text \<open>
  Claim C2. The playhead stays within \<open>[0, D]\<close> under every operation but one:
  \<^verbatim>\<open>_pause_playback\<close> stores the derived position as it is. The run below loads a clip of
  10 seconds, seeks to 9.95, starts playback and pauses 60 milliseconds later, before the
  next timer tick: the playhead is left at 10.01, past the end of the clip.
\<close>

theorem pause_sets_playhead_past_clip_end:
  "(let ed0 = fst (load_clip (init_editor 1280) ''a.mp4'' (Some \<lparr>duration = 10\<rparr>));
        ed1 = seek_to ed0 999 (995 / 100);
        ed = play_pause ed1 1000 1000;
        ed' = play_pause ed (1000 + 6 / 100) (1000 + 6 / 100)
    in playhead (timeline ed1) = 995 / 100 \<and> is_playing ed \<and>
       play_offset ed = 995 / 100 \<and> play_start_sys ed = Some 1000 \<and>
       \<not> is_playing ed' \<and>
       clip_duration (timeline ed') = 10 \<and>
       playhead (timeline ed') = 1001 / 100 \<and>
       \<not> playhead (timeline ed') \<le> clip_duration (timeline ed'))"
  by (simp add: Let_def play_pause_def pause_playback_def start_playback_at_def load_clip_def
      init_editor_def init_timeline_def set_clip_duration_def seek_to_def)

text \<open>
  The other writers of the playhead keep it within the clip, and a range change moves a
  playhead that fell outside \<open>[S, E]\<close> to the nearer bound.
\<close>

lemma seek_to_playhead:
  "playhead (timeline (seek_to ed now s)) =
     max 0 (min (case clip ed of Some c \<Rightarrow> duration c | None \<Rightarrow> 0) s)"
  by (simp add: seek_to_def Let_def)

lemma seek_to_clip: "clip (seek_to ed now s) = clip ed"
  by (simp add: seek_to_def Let_def)

lemma range_change_clamps_to_nearest_bound:
  assumes "clip ed = Some c" "0 \<le> s" "s \<le> e" "e \<le> duration c"
  shows "playhead (timeline (on_range_changed ed now s e)) = max s (min e (playhead (timeline ed)))"
  using assms by (auto simp add: on_range_changed_def Let_def seek_to_playhead seek_to_clip)

lemma on_range_changed_playhead_in_clip:
  assumes "clip ed = Some c" "0 \<le> duration c"
    "0 \<le> playhead (timeline ed)" "playhead (timeline ed) \<le> duration c"
  shows "0 \<le> playhead (timeline (on_range_changed ed now s e)) \<and>
         playhead (timeline (on_range_changed ed now s e)) \<le> duration c"
  using assms by (auto simp add: on_range_changed_def Let_def seek_to_playhead seek_to_clip)

lemma press_playhead_in_clip:
  assumes "clip ed = Some c" "0 \<le> duration c"
    "0 \<le> playhead (timeline ed)" "playhead (timeline ed) \<le> duration c"
  shows "0 \<le> playhead (timeline (timeline_press ed now x)) \<and>
         playhead (timeline (timeline_press ed now x)) \<le> duration c"
  using assms
  by (auto simp add: timeline_press_def deliver_def mousePressEvent_def Let_def dispatch_def
      seek_to_playhead)

lemma move_playhead_in_clip:
  assumes "clip ed = Some c" "0 \<le> duration c"
    "0 \<le> playhead (timeline ed)" "playhead (timeline ed) \<le> duration c"
  shows "0 \<le> playhead (timeline (timeline_move ed now x)) \<and>
         playhead (timeline (timeline_move ed now x)) \<le> duration c"
proof (cases "dragging (timeline ed)")
  case None
  with assms show ?thesis by (simp add: timeline_move_def deliver_def mouseMoveEvent_def)
next
  case (Some d)
  show ?thesis
  proof (cases d)
    case DragStart
    with Some assms show ?thesis
      by (simp add: timeline_move_def deliver_def mouseMoveEvent_def Let_def dispatch_def
          on_range_changed_playhead_in_clip)
  next
    case DragEnd
    with Some assms show ?thesis
      by (simp add: timeline_move_def deliver_def mouseMoveEvent_def Let_def dispatch_def
          on_range_changed_playhead_in_clip)
  next
    case DragPlayhead
    with Some assms show ?thesis
      by (simp add: timeline_move_def deliver_def mouseMoveEvent_def Let_def dispatch_def
          seek_to_playhead)
  qed
qed

lemma on_timer_playhead_in_clip:
  assumes "clip ed = Some c" "0 \<le> duration c"
    "0 \<le> playhead (timeline ed)" "playhead (timeline ed) \<le> duration c"
    "0 \<le> play_offset ed" "\<forall>a. play_start_sys ed = Some a \<longrightarrow> a \<le> now"
  shows "0 \<le> playhead (timeline (fst (on_timer ed now now2))) \<and>
         playhead (timeline (fst (on_timer ed now now2))) \<le> duration c"
  using assms
  by (auto simp add: on_timer_def Let_def stop_def update_preview_frame_def
      split: option.splits if_splits)

lemma other_operations_keep_playhead_in_clip:
  assumes "clip ed = Some c" "0 \<le> duration c"
    "0 \<le> playhead (timeline ed)" "playhead (timeline ed) \<le> duration c"
  shows "0 \<le> playhead (timeline (seek_to ed now s)) \<and>
         playhead (timeline (seek_to ed now s)) \<le> duration c"
    and "0 \<le> playhead (timeline (step_by ed now s)) \<and>
         playhead (timeline (step_by ed now s)) \<le> duration c"
    and "0 \<le> playhead (timeline (slider_moved ed now v)) \<and>
         playhead (timeline (slider_moved ed now v)) \<le> duration c"
    and "playhead (timeline (stop ed)) = 0"
    and "playhead (timeline (start_playback_at ed now s)) = playhead (timeline ed)"
    and "playhead (timeline (timeline_release ed)) = playhead (timeline ed)"
    and "playhead (timeline (timeline_wheel ed delta)) = playhead (timeline ed)"
    and "playhead (timeline (zoom_changed ed v)) = playhead (timeline ed)"
  using assms
  by (simp_all add: seek_to_playhead step_by_def slider_moved_def stop_def start_playback_at_def
      timeline_release_def mouseReleaseEvent_def timeline_wheel_def wheelEvent_def
      zoom_changed_def Let_def)

subsection \<open>Export\<close>

text \<open>
  Claim C9. With a clip loaded and \<open>E - S\<close> below 0.01 seconds, \<^verbatim>\<open>export_trimmed\<close> shows the
  ``Invalid range'' warning and returns: the state is unchanged, and neither the save
  dialog nor \<^verbatim>\<open>subclip\<close> nor \<^verbatim>\<open>write_videofile\<close> is called.
\<close>

theorem export_rejects_short_range:
  assumes "clip ed = Some c"
      and "end_marker (timeline ed) - start_marker (timeline ed) < 1 / 100"
  shows "export_trimmed ed save_path outcome = (ed, [MsgWarning ''Invalid range'']) \<and>
         (\<forall>a b. Subclip a b \<notin> set (snd (export_trimmed ed save_path outcome))) \<and>
         (\<forall>p. WriteVideofile p \<notin> set (snd (export_trimmed ed save_path outcome))) \<and>
         SaveFileDialog \<notin> set (snd (export_trimmed ed save_path outcome))"
  using assms by (simp add: export_trimmed_def)

theorem export_rejects_short_range_witness:
  "(let ed = (init_editor 1280)
       \<lparr>clip := Some \<lparr>duration = 10\<rparr>,
        timeline := (init_timeline 1280)
           \<lparr>clip_duration := 10, start_marker := 1, end_marker := 1005 / 1000\<rparr>\<rparr>
    in end_marker (timeline ed) - start_marker (timeline ed) = 5 / 1000 \<and>
       export_trimmed ed ''out.mp4'' Completes = (ed, [MsgWarning ''Invalid range'']))"
  using export_rejects_short_range
    [of "(init_editor 1280)
       \<lparr>clip := Some \<lparr>duration = 10\<rparr>,
        timeline := (init_timeline 1280)
           \<lparr>clip_duration := 10, start_marker := 1, end_marker := 1005 / 1000\<rparr>\<rparr>"
        "\<lparr>duration = 10\<rparr>" "''out.mp4''" Completes]
  by (simp add: init_editor_def init_timeline_def Let_def)

subsection \<open>Tick marks\<close>

lemma min_from_first:
  "\<exists>pre post. b # ys = pre @ min_from key b ys # post \<and>
     (\<forall>z\<in>set pre. key (min_from key b ys) < key z) \<and>
     (\<forall>z\<in>set post. key (min_from key b ys) \<le> key z)"
proof (induction ys arbitrary: b)
  case Nil
  have "[b] = [] @ min_from key b [] # []" by simp
  then show ?case by (metis empty_iff list.set(1))
next
  case (Cons y ys)
  define b' where "b' = (if key y < key b then y else b)"
  define r where "r = min_from key b' ys"
  have r: "min_from key b (y # ys) = r" by (simp add: r_def b'_def)
  from Cons.IH [of b'] obtain pre post where
    eq: "b' # ys = pre @ r # post" and
    lt: "\<forall>z\<in>set pre. key r < key z" and
    le: "\<forall>z\<in>set post. key r \<le> key z"
    unfolding r_def by blast
  have rb': "key r \<le> key b'"
  proof (cases pre)
    case Nil
    with eq show ?thesis by simp
  next
    case (Cons p ps)
    with eq have "b' \<in> set pre" by simp
    with lt show ?thesis by fastforce
  qed
  show ?case
  proof (cases "key y < key b")
    case True
    then have b'y: "b' = y" by (simp add: b'_def)
    have "b # y # ys = (b # pre) @ r # post" using eq b'y by simp
    moreover have "\<forall>z\<in>set (b # pre). key r < key z"
      using lt rb' True b'y by auto
    ultimately show ?thesis unfolding r using le by blast
  next
    case False
    then have b'b: "b' = b" by (simp add: b'_def)
    show ?thesis
    proof (cases pre)
      case Nil
      with eq b'b have rb: "r = b" and post: "post = ys" by simp_all
      have "b # y # ys = [] @ r # (y # ys)" using rb by simp
      moreover have "\<forall>z\<in>set (y # ys). key r \<le> key z"
        using le post rb False by auto
      ultimately show ?thesis unfolding r by (metis empty_iff list.set(1))
    next
      case (Cons p ps)
      with eq b'b have p: "p = b" and ys: "ys = ps @ r # post" by simp_all
      have rb: "key r < key b" using lt Cons p by simp
      have "b # y # ys = (b # y # ps) @ r # post" using ys by simp
      moreover have "\<forall>z\<in>set (b # y # ps). key r < key z"
        using lt Cons p rb False by auto
      ultimately show ?thesis unfolding r using le by blast
    qed
  qed
qed

lemma tick_loop_steps:
  assumes "\<forall>k<n. t + of_nat k * of_int step \<le> dur + 1 / 10000"
    and "dur + 1 / 10000 < t + of_nat n * of_int step"
  shows "tick_loop tw dur step t acc =
           Some (acc @ map (\<lambda>k. draw_tick tw (t + of_nat k * of_int step)) [0..<n])"
  using assms
proof (induction n arbitrary: t acc)
  case 0
  then show ?case by (subst tick_loop.simps) simp
next
  case (Suc n)
  from Suc.prems(1) have t: "t \<le> dur + 1 / 10000" by fastforce
  have a: "\<forall>k<n. (t + of_int step) + of_nat k * of_int step \<le> dur + 1 / 10000"
  proof (intro allI impI)
    fix k assume "k < n"
    then have "Suc k < Suc n" by simp
    with Suc.prems(1) have "t + of_nat (Suc k) * of_int step \<le> dur + 1 / 10000" by blast
    then show "(t + of_int step) + of_nat k * of_int step \<le> dur + 1 / 10000"
      by (simp add: algebra_simps)
  qed
  have b: "dur + 1 / 10000 < (t + of_int step) + of_nat n * of_int step"
    using Suc.prems(2) by (simp add: algebra_simps)
  have m: "map (\<lambda>k. draw_tick tw (t + of_nat k * of_int step)) [0..<Suc n] =
           draw_tick tw t # map (\<lambda>k. draw_tick tw ((t + of_int step) + of_nat k * of_int step)) [0..<n]"
    by (simp add: upt_conv_Cons map_Suc_upt [symmetric] algebra_simps del: upt_Suc)
  have "tick_loop tw dur step t acc =
          tick_loop tw dur step (t + of_int step) (acc @ [draw_tick tw t])"
    using t by (subst tick_loop.simps) simp
  also have "\<dots> = Some ((acc @ [draw_tick tw t]) @
        map (\<lambda>k. draw_tick tw ((t + of_int step) + of_nat k * of_int step)) [0..<n])"
    by (rule Suc.IH [OF a b])
  finally show ?case by (simp only: m) simp
qed

lemma tick_step_first_nearest:
  "\<exists>step pre post.
     tick_step tw = Some step \<and> nice = pre @ step # post \<and>
     (\<forall>z\<in>set pre. \<bar>of_int step - seconds_per_tick tw\<bar> < \<bar>of_int z - seconds_per_tick tw\<bar>) \<and>
     (\<forall>z\<in>set post. \<bar>of_int step - seconds_per_tick tw\<bar> \<le> \<bar>of_int z - seconds_per_tick tw\<bar>)"
proof -
  define key where "key = (\<lambda>x::int. \<bar>of_int x - seconds_per_tick tw\<bar>)"
  define rest where "rest = [2, 5, 10, 15, 30, 60, 120, 300, 600 :: int]"
  have n: "nice = 1 # rest" by (simp add: nice_def rest_def)
  have t: "tick_step tw = Some (min_from key 1 rest)"
    by (simp add: tick_step_def py_min_def n key_def)
  from min_from_first [of 1 rest key] obtain pre post where
    "1 # rest = pre @ min_from key 1 rest # post"
    "\<forall>z\<in>set pre. key (min_from key 1 rest) < key z"
    "\<forall>z\<in>set post. key (min_from key 1 rest) \<le> key z"
    by blast
  with t n show ?thesis unfolding key_def by auto
qed

lemma nice_positive: "z \<in> set nice \<Longrightarrow> 1 \<le> z"
  by (auto simp add: nice_def)

lemma tick_count:
  fixes L :: real and step :: int
  assumes "0 \<le> L" "1 \<le> step"
  defines "n \<equiv> nat \<lfloor>L / of_int step\<rfloor>"
  shows "\<forall>k<Suc n. of_nat k * of_int step \<le> L" and "L < of_nat (Suc n) * of_int step"
proof -
  from assms(2) have s: "(0::real) < of_int step" by simp
  from assms(1) s have q: "0 \<le> L / of_int step" by simp
  then have f: "0 \<le> \<lfloor>L / of_int step\<rfloor>" by simp
  then have nn: "of_nat n = (of_int \<lfloor>L / of_int step\<rfloor> :: real)"
    by (simp add: n_def)
  show "\<forall>k<Suc n. of_nat k * of_int step \<le> L"
  proof (intro allI impI)
    fix k assume "k < Suc n"
    then have "(of_nat k :: real) \<le> of_nat n" by simp
    also have "\<dots> \<le> L / of_int step" unfolding nn by (rule of_int_floor_le)
    finally show "of_nat k * of_int step \<le> L" using s by (simp add: pos_le_divide_eq)
  qed
  have "L / of_int step < of_int \<lfloor>L / of_int step\<rfloor> + 1" by linarith
  also have "\<dots> = of_nat (Suc n)" using nn by simp
  finally show "L < of_nat (Suc n) * of_int step" using s by (simp add: pos_divide_less_eq)
qed

lemma paint_ticks_closed:
  assumes "tick_step tw = Some step" "1 \<le> step"
  shows "paint_ticks tw =
           Some (draw_tick tw 0 #
                 map (\<lambda>k. draw_tick tw (of_nat k * of_int step))
                   [1..<Suc (nat \<lfloor>(max 1 (clip_duration tw) + 1 / 10000) / of_int step\<rfloor>)])"
proof -
  define L where "L = max 1 (clip_duration tw) + 1 / 10000"
  define n where "n = nat \<lfloor>L / of_int step\<rfloor>"
  have L0: "0 \<le> L" by (simp add: L_def)
  have a: "\<forall>k<Suc n. 0 + of_nat k * of_int step \<le> tick_duration tw + 1 / 10000"
    using tick_count(1) [OF L0 assms(2)] by (simp add: n_def L_def tick_duration_def)
  have b: "tick_duration tw + 1 / 10000 < 0 + of_nat (Suc n) * of_int step"
    using tick_count(2) [OF L0 assms(2)] by (simp add: n_def L_def tick_duration_def)
  have "paint_ticks tw = tick_loop tw (tick_duration tw) step 0 []"
    using assms(1) by (simp add: paint_ticks_def)
  also have "\<dots> = Some ([] @ map (\<lambda>k. draw_tick tw (0 + of_nat k * of_int step)) [0..<Suc n])"
    by (rule tick_loop_steps [OF a b])
  also have "\<dots> = Some (draw_tick tw 0 # map (\<lambda>k. draw_tick tw (of_nat k * of_int step)) [1..<Suc n])"
    by (simp add: upt_conv_Cons del: upt_Suc)
  finally show ?thesis by (simp add: n_def L_def)
qed

lemma whole_tick_le:
  fixes step :: int
  assumes "of_nat k * of_int step \<le> (125::real) + 1 / 10000"
  shows "of_nat k * of_int step \<le> (125::real)"
proof -
  have "(of_int (int k * step) :: real) \<le> 125 + 1 / 10000" using assms by simp
  then have "int k * step \<le> \<lfloor>(125::real) + 1 / 10000\<rfloor>" by (simp only: le_floor_iff)
  also have "\<dots> = 125" by simp
  finally have "(of_int (int k * step) :: real) \<le> of_int 125" by (simp only: of_int_le_iff)
  then show ?thesis by simp
qed

text \<open>
  Claim C10, as amended. With \<open>dur = max 1 D\<close>, the tick code computes
  \<open>seconds_per_tick = max 1 (120 / max 10\<^sup>-\<^sup>6 (clip_w / dur))\<close> and snaps it to the first
  element of the list of nice steps at the least absolute distance. The loop ends and draws
  ticks at \<open>0, step, 2 * step, \<dots>\<close>, exactly those not above \<open>dur + 0.0001\<close>. For
  \<open>D = 125\<close> no tick is past 125.
\<close>

theorem ticks_at_multiples_of_snapped_step:
  "\<exists>step pre post.
     tick_step tw = Some step \<and> nice = pre @ step # post \<and>
     (\<forall>z\<in>set pre. \<bar>of_int step - seconds_per_tick tw\<bar> < \<bar>of_int z - seconds_per_tick tw\<bar>) \<and>
     (\<forall>z\<in>set post. \<bar>of_int step - seconds_per_tick tw\<bar> \<le> \<bar>of_int z - seconds_per_tick tw\<bar>) \<and>
     (let dur = max 1 (clip_duration tw);
          n = nat \<lfloor>(dur + 1 / 10000) / of_int step\<rfloor>
      in seconds_per_tick tw = max 1 (120 / max (1 / 1000000) (of_int (clip_w tw) / dur)) \<and>
         paint_ticks tw =
           Some (draw_tick tw 0 # map (\<lambda>k. draw_tick tw (of_nat k * of_int step)) [1..<Suc n]) \<and>
         (\<forall>k<Suc n. of_nat k * of_int step \<le> dur + 1 / 10000) \<and>
         dur + 1 / 10000 < of_nat (Suc n) * of_int step \<and>
         (clip_duration tw = 125 \<longrightarrow> (\<forall>k<Suc n. of_nat k * of_int step \<le> (125::real))))"
proof -
  from tick_step_first_nearest [of tw] obtain step pre post where
    st: "tick_step tw = Some step" and ni: "nice = pre @ step # post" and
    lt: "\<forall>z\<in>set pre. \<bar>of_int step - seconds_per_tick tw\<bar> < \<bar>of_int z - seconds_per_tick tw\<bar>" and
    le: "\<forall>z\<in>set post. \<bar>of_int step - seconds_per_tick tw\<bar> \<le> \<bar>of_int z - seconds_per_tick tw\<bar>"
    by blast
  have "step \<in> set nice" by (simp add: ni)
  then have s1: "1 \<le> step" by (rule nice_positive)
  define dur where "dur = max 1 (clip_duration tw)"
  define n where "n = nat \<lfloor>(dur + 1 / 10000) / of_int step\<rfloor>"
  have L0: "0 \<le> dur + 1 / 10000" by (simp add: dur_def)
  have spt: "seconds_per_tick tw = max 1 (120 / max (1 / 1000000) (of_int (clip_w tw) / dur))"
    by (simp add: seconds_per_tick_def target_px_def tick_duration_def dur_def)
  have pt: "paint_ticks tw =
           Some (draw_tick tw 0 # map (\<lambda>k. draw_tick tw (of_nat k * of_int step)) [1..<Suc n])"
    using paint_ticks_closed [OF st s1] by (simp add: n_def dur_def)
  have c1: "\<forall>k<Suc n. of_nat k * of_int step \<le> dur + 1 / 10000"
    using tick_count(1) [OF L0 s1] by (simp add: n_def)
  have c2: "dur + 1 / 10000 < of_nat (Suc n) * of_int step"
    using tick_count(2) [OF L0 s1] by (simp add: n_def)
  have c3: "\<forall>k<Suc n. of_nat k * of_int step \<le> (125::real)" if "clip_duration tw = 125"
  proof (intro allI impI)
    fix k assume "k < Suc n"
    with c1 have "of_nat k * of_int step \<le> dur + 1 / 10000" by blast
    moreover from that have "dur = 125" by (simp add: dur_def)
    ultimately show "of_nat k * of_int step \<le> (125::real)" by (simp add: whole_tick_le)
  qed
  have "let dur = max 1 (clip_duration tw);
          n = nat \<lfloor>(dur + 1 / 10000) / of_int step\<rfloor>
      in seconds_per_tick tw = max 1 (120 / max (1 / 1000000) (of_int (clip_w tw) / dur)) \<and>
         paint_ticks tw =
           Some (draw_tick tw 0 # map (\<lambda>k. draw_tick tw (of_nat k * of_int step)) [1..<Suc n]) \<and>
         (\<forall>k<Suc n. of_nat k * of_int step \<le> dur + 1 / 10000) \<and>
         dur + 1 / 10000 < of_nat (Suc n) * of_int step \<and>
         (clip_duration tw = 125 \<longrightarrow> (\<forall>k<Suc n. of_nat k * of_int step \<le> (125::real)))"
    unfolding Let_def dur_def [symmetric] n_def [symmetric]
    using spt pt c1 c2 c3 by blast
  with st ni lt le show ?thesis by blast
qed

theorem ticks_at_multiples_of_snapped_step_witness:
  "(let tw = set_clip_duration (init_timeline 635) 125
    in clip_duration tw = 125 \<and> clip_w tw = 535 \<and>
       seconds_per_tick tw = 3000 / 107 \<and>
       tick_step tw = Some 30 \<and>
       paint_ticks tw = Some (map (draw_tick tw) [0, 30, 60, 90, 120]))"
proof -
  define tw where "tw = set_clip_duration (init_timeline 635) 125"
  have d: "clip_duration tw = 125"
    by (simp add: tw_def set_clip_duration_def)
  have w: "clip_w tw = 535"
    by (simp add: tw_def clip_w_def total_width_def usable_def set_clip_duration_def
        init_timeline_def)
  have spt: "seconds_per_tick tw = 3000 / 107"
    by (simp add: seconds_per_tick_def target_px_def tick_duration_def d w)
  have st: "tick_step tw = Some 30"
    by (simp add: tick_step_def py_min_def nice_def spt)
  from ticks_at_multiples_of_snapped_step [of tw] obtain step where
    "tick_step tw = Some step" and
    "paint_ticks tw =
       Some (draw_tick tw 0 # map (\<lambda>k. draw_tick tw (of_nat k * of_int step))
          [1..<Suc (nat \<lfloor>(max 1 (clip_duration tw) + 1 / 10000) / of_int step\<rfloor>)])"
    unfolding Let_def by blast
  with st have "paint_ticks tw =
       Some (draw_tick tw 0 # map (\<lambda>k. draw_tick tw (of_nat k * 30))
          [1..<Suc (nat \<lfloor>(max 1 (clip_duration tw) + 1 / 10000) / 30\<rfloor>)])"
    by simp
  also have "nat \<lfloor>(max 1 (clip_duration tw) + 1 / 10000) / 30\<rfloor> = 4"
    by (simp add: d)
  finally have "paint_ticks tw = Some (map (draw_tick tw) [0, 30, 60, 90, 120])"
    by (simp add: upt_conv_Cons del: upt_Suc)
  with d w spt st show ?thesis by (simp add: tw_def Let_def)
qed

text \<open>
  The claim as stated bounds the ticks by \<open>D\<close> itself. For a clip of half a second the
  loop runs up to \<open>max 1 D = 1\<close> and draws a tick at one second, past the end of the clip.
\<close>

theorem ticks_past_short_clip_counterexample:
  "(let tw = set_clip_duration (init_timeline 1280) (1 / 2)
    in clip_duration tw = 1 / 2 \<and>
       tick_step tw = Some 1 \<and>
       paint_ticks tw = Some [draw_tick tw 0, draw_tick tw 1] \<and>
       fst (draw_tick tw 1) = 1 \<and>
       \<not> fst (draw_tick tw 1) \<le> clip_duration tw + 1 / 10000)"
proof -
  define tw where "tw = set_clip_duration (init_timeline 1280) (1 / 2)"
  have d: "clip_duration tw = 1 / 2"
    by (simp add: tw_def set_clip_duration_def)
  have w: "clip_w tw = 120"
    by (simp add: tw_def clip_w_def total_width_def usable_def set_clip_duration_def
        init_timeline_def py_int_def)
  have spt: "seconds_per_tick tw = 1"
    by (simp add: seconds_per_tick_def target_px_def tick_duration_def d w)
  have st: "tick_step tw = Some 1"
    by (simp add: tick_step_def py_min_def nice_def spt)
  have "paint_ticks tw =
       Some (draw_tick tw 0 # map (\<lambda>k. draw_tick tw (of_nat k * of_int 1))
          [1..<Suc (nat \<lfloor>(max 1 (clip_duration tw) + 1 / 10000) / of_int 1\<rfloor>)])"
    by (rule paint_ticks_closed [OF st]) simp
  also have "nat \<lfloor>(max 1 (clip_duration tw) + 1 / 10000) / of_int 1\<rfloor> = 1"
    by (simp add: d)
  finally have "paint_ticks tw = Some [draw_tick tw 0, draw_tick tw 1]"
    by simp
  with d st show ?thesis by (simp add: tw_def Let_def draw_tick_def)
qed

end
